theory Spec2Isabelle
  imports Main "HOL-Library.Sublist" "HOL-Library.AList"
begin

section \<open>Python strings as the four scripts use them\<close>

text \<open>
  A Python \<open>str\<close> is modelled as a \<open>string\<close> of 8-bit characters, which is exact for
  ASCII column names. \<open>str.lower()\<close> maps the letters \<open>A\<close> to \<open>Z\<close> to \<open>a\<close> to \<open>z\<close>
  and leaves every other character alone.
\<close>

definition py_lower_char :: "char \<Rightarrow> char" where
  "py_lower_char c =
     (case map_of (zip ''ABCDEFGHIJKLMNOPQRSTUVWXYZ'' ''abcdefghijklmnopqrstuvwxyz'') c of
        Some d \<Rightarrow> d
      | None \<Rightarrow> c)"

definition py_lower :: "string \<Rightarrow> string" where
  "py_lower s = map py_lower_char s"

text \<open>\<open>s.replace(' ', '_')\<close>: every single space character becomes one underscore.\<close>

definition replace_space :: "string \<Rightarrow> string" where
  "replace_space s = map (\<lambda>c. if c = CHR '' '' then CHR ''_'' else c) s"

text \<open>The operator \<open>sub in s\<close> on strings: \<open>sub\<close> occurs in \<open>s\<close> as a contiguous block.\<close>

fun py_in :: "string \<Rightarrow> string \<Rightarrow> bool" where
  "py_in sub [] = (sub = [])"
| "py_in sub (c # cs) = (prefix sub (c # cs) \<or> py_in sub cs)"

section \<open>Column-name sanitizing\<close>

text \<open>\<open>RESERVED_WORDS\<close> of \<open>sqlite_script.py\<close>, in the order of the source.\<close>

definition RESERVED_WORDS :: "string list" where
  "RESERVED_WORDS =
    [''abort'', ''action'', ''add'', ''after'', ''all'', ''alter'', ''analyze'', ''and'', ''as'', ''asc'',
     ''attach'', ''autoincrement'', ''before'', ''begin'', ''between'', ''by'', ''cascade'', ''case'',
     ''cast'', ''check'', ''collate'', ''column'', ''commit'', ''conflict'', ''constraint'', ''create'',
     ''cross'', ''current_date'', ''current_time'', ''current_timestamp'', ''database'', ''default'',
     ''deferrable'', ''deferred'', ''delete'', ''desc'', ''detach'', ''distinct'', ''drop'', ''each'',
     ''else'', ''end'', ''escape'', ''except'', ''exclusive'', ''exists'', ''explain'', ''fail'', ''for'',
     ''foreign'', ''from'', ''full'', ''glob'', ''group'', ''having'', ''if'', ''ignore'', ''immediate'',
     ''in'', ''index'', ''indexed'', ''initially'', ''inner'', ''insert'', ''instead'', ''intersect'',
     ''into'', ''is'', ''isnull'', ''join'', ''key'', ''left'', ''like'', ''limit'', ''match'', ''natural'',
     ''no'', ''not'', ''notnull'', ''null'', ''of'', ''offset'', ''on'', ''or'', ''order'', ''outer'', ''plan'',
     ''pragma'', ''primary'', ''query'', ''raise'', ''recursive'', ''references'', ''regexp'', ''reindex'',
     ''release'', ''rename'', ''replace'', ''restrict'', ''right'', ''rollback'', ''row'', ''savepoint'',
     ''select'', ''set'', ''table'', ''temp'', ''temporary'', ''then'', ''to'', ''transaction'', ''trigger'',
     ''union'', ''unique'', ''update'', ''using'', ''vacuum'', ''values'', ''view'', ''virtual'', ''when'',
     ''where'', ''with'', ''without'']"

text \<open>
  The test \<open>safe_col_name.lower() in [w.lower() for w in RESERVED_WORDS]\<close> of
  \<open>sqlite_script.py\<close>.
\<close>

definition is_reserved :: "string \<Rightarrow> bool" where
  "is_reserved safe_col_name = (py_lower safe_col_name \<in> set (map py_lower RESERVED_WORDS))"

text \<open>
  The body of the loop over the header in \<open>create_table\<close> and, repeated word for word, in
  \<open>load_csv_to_database\<close> of \<open>sqlite_script.py\<close>:
  \<^verbatim>\<open>
  safe_col_name = col_name.lower().replace(' ', '_')
  if safe_col_name.lower() in [w.lower() for w in RESERVED_WORDS]:
      safe_col_name = f"{safe_col_name}_col"
  \<close>
\<close>

definition sqlite_safe_col_name :: "string \<Rightarrow> string" where
  "sqlite_safe_col_name col_name =
     (let safe_col_name = replace_space (py_lower col_name)
      in if is_reserved safe_col_name then safe_col_name @ ''_col'' else safe_col_name)"

text \<open>
  \<open>postgresql_script.py\<close> has no reserved-word list: \<open>create_table\<close> and
  \<open>load_csv_to_database\<close> both use \<open>col_name.lower().replace(' ', '_')\<close> alone.
\<close>

definition pg_safe_col_name :: "string \<Rightarrow> string" where
  "pg_safe_col_name col_name = replace_space (py_lower col_name)"

text \<open>
  The sanitizer as the specification words it, for comparison with the code: lower-case,
  then every maximal run of whitespace characters (space, tab, line feed, vertical tab,
  form feed, carriage return) becomes one underscore, then the reserved-word test.
  The flag of \<open>spec_collapse_runs\<close> says that the previous character was whitespace.
\<close>

definition is_whitespace :: "char \<Rightarrow> bool" where
  "is_whitespace c = (c \<in> set [CHR '' '', CHR 0x09, CHR 0x0A, CHR 0x0B, CHR 0x0C, CHR 0x0D])"

fun spec_collapse_runs :: "bool \<Rightarrow> string \<Rightarrow> string" where
  "spec_collapse_runs in_run [] = []"
| "spec_collapse_runs in_run (c # cs) =
     (if is_whitespace c
      then (if in_run then spec_collapse_runs True cs else CHR ''_'' # spec_collapse_runs True cs)
      else c # spec_collapse_runs False cs)"

definition spec_sanitize :: "string \<Rightarrow> string" where
  "spec_sanitize rawName =
     (let s = spec_collapse_runs False (py_lower rawName)
      in if is_reserved s then s @ ''_col'' else s)"

section \<open>Schema and statement text\<close>

text \<open>\<open>sep.join(xs)\<close>.\<close>

fun py_join :: "string \<Rightarrow> string list \<Rightarrow> string" where
  "py_join sep [] = []"
| "py_join sep [x] = x"
| "py_join sep (x # y # ys) = x @ sep @ py_join sep (y # ys)"

definition dquote :: string where
  "dquote = [CHR 0x22]"

text \<open>
  \<open>create_table\<close> of \<open>sqlite_script.py\<close>: the surrogate key first, then one
  double-quoted \<open>TEXT\<close> column per header name.
\<close>

definition sqlite_column_defs :: "string list \<Rightarrow> string list" where
  "sqlite_column_defs header =
     ''id INTEGER PRIMARY KEY AUTOINCREMENT'' #
     map (\<lambda>col_name. dquote @ sqlite_safe_col_name col_name @ dquote @ '' TEXT'') header"

definition sqlite_create_sql :: "string list \<Rightarrow> string" where
  "sqlite_create_sql header =
     ''CREATE TABLE utenti ('' @ py_join '', '' (sqlite_column_defs header) @ '');''"

text \<open>
  \<open>create_table\<close> of \<open>postgresql_script.py\<close>: the names are neither quoted nor
  tested against any reserved-word list.
\<close>

definition pg_column_defs :: "string list \<Rightarrow> string list" where
  "pg_column_defs header =
     ''id SERIAL PRIMARY KEY'' #
     map (\<lambda>col_name. pg_safe_col_name col_name @ '' VARCHAR(255)'') header"

definition pg_create_sql :: "string list \<Rightarrow> string" where
  "pg_create_sql header =
     ''CREATE TABLE utenti ('' @ py_join '', '' (pg_column_defs header) @ '');''"

text \<open>The \<open>INSERT\<close> statement \<open>load_csv_to_database\<close> of \<open>sqlite_script.py\<close> builds once.\<close>

definition sqlite_insert_sql :: "string list \<Rightarrow> string" where
  "sqlite_insert_sql header =
     (let safe_column_names = map sqlite_safe_col_name header;
          placeholders = py_join '', '' (map (\<lambda>_. ''?'') header);
          column_names = py_join '', '' (map (\<lambda>name. dquote @ name @ dquote) safe_column_names)
      in ''INSERT INTO utenti ('' @ column_names @ '') VALUES ('' @ placeholders @ '')'')"

section \<open>Field matching\<close>

text \<open>
  Every script finds its column with the same loop: the fields in the order the
  destination lists them, the first whose lower-cased name passes the test, then
  \<open>break\<close>. The result is the name as stored, not the lower-cased one.
\<close>

fun scan_fields :: "(string \<Rightarrow> bool) \<Rightarrow> string list \<Rightarrow> string option" where
  "scan_fields crit [] = None"
| "scan_fields crit (col # cols) =
     (if crit (py_lower col) then Some col else scan_fields crit cols)"

text \<open>\<open>count_https_websites\<close> of \<open>sqlite_script.py\<close>.\<close>

definition sqlite_website_test :: "string \<Rightarrow> bool" where
  "sqlite_website_test col_name =
     (col_name = ''website'' \<or> py_in ''website'' col_name \<or> py_in ''site'' col_name
      \<or> py_in ''sito'' col_name)"

text \<open>\<open>count_info_domain_websites\<close> of \<open>duckdb_script.py\<close>.\<close>

definition duckdb_website_test :: "string \<Rightarrow> bool" where
  "duckdb_website_test col_name =
     (col_name = ''website'' \<or> py_in ''site'' col_name \<or> py_in ''sito'' col_name)"

text \<open>\<open>count_com_emails\<close> of \<open>postgresql_script.py\<close>.\<close>

definition pg_email_test :: "string \<Rightarrow> bool" where
  "pg_email_test col_name =
     (col_name = ''email'' \<or> py_in ''email'' col_name \<or> py_in ''mail'' col_name)"

text \<open>\<open>count_2020_subscriptions\<close> of \<open>mongodb_script.py\<close>.\<close>

definition mongo_subscription_test :: "string \<Rightarrow> bool" where
  "mongo_subscription_test field_lower =
     ((py_in ''subscription'' field_lower \<or> py_in ''iscrizione'' field_lower)
      \<and> (py_in ''date'' field_lower \<or> py_in ''data'' field_lower))"

text \<open>
  The shape the three relational tests share: equality with a primary keyword, or
  containment of one of an ordered list of substrings.
\<close>

definition keyword_test :: "string \<Rightarrow> string list \<Rightarrow> string \<Rightarrow> bool" where
  "keyword_test primary subs col_name =
     (col_name = primary \<or> (\<exists>sub \<in> set subs. py_in sub col_name))"

section \<open>The source file\<close>

text \<open>
  A source file is the list of records \<open>csv.reader\<close> yields from it, the header first;
  a record is the list of its field values. \<open>next(csv_reader)\<close> on a file with no
  record at all raises \<open>StopIteration\<close>.
\<close>

type_synonym csv_record = "string list"

datatype error =
    StopIteration
  | ProgrammingError
  | OperationalError
  | BulkWriteError
  | InvalidDocument
  | OperationFailure
  | TypeError

definition next_record :: "csv_record list \<Rightarrow> error + (csv_record \<times> csv_record list)" where
  "next_record csv_reader =
     (case csv_reader of [] \<Rightarrow> Inl StopIteration | rec # rest \<Rightarrow> Inr (rec, rest))"

section \<open>The embedded relational destination (\<open>sqlite_script.py\<close>)\<close>

text \<open>
  The connection, as far as the script can observe it: the text columns of table
  \<open>utenti\<close> (\<open>None\<close> while the table does not exist), the rows this connection sees,
  the rows of the last commit, whether a transaction is open, and the statements
  executed so far. A stored row gives each text column its value, or \<open>None\<close> for SQL
  \<open>NULL\<close>.
\<close>

datatype sql_stmt =
    DropTableIfExists
  | CreateTable string
  | BeginTransaction
  | InsertRow string "string list"
  | PragmaTableInfo
  | SelectCountHttps string

record sqlite_conn =
  tbl_columns :: "string list option"
  tbl_rows :: "string option list list"
  committed_rows :: "string option list list"
  in_transaction :: bool
  executed :: "sql_stmt list"

text \<open>
  A call either raises, leaving the connection as it is at that point, or returns a
  value and the connection.
\<close>

type_synonym 'a sqlite_result = "(error \<times> sqlite_conn) + ('a \<times> sqlite_conn)"

definition conn_commit :: "sqlite_conn \<Rightarrow> sqlite_conn" where
  "conn_commit conn = conn\<lparr>committed_rows := tbl_rows conn, in_transaction := False\<rparr>"

definition conn_rollback :: "sqlite_conn \<Rightarrow> sqlite_conn" where
  "conn_rollback conn = conn\<lparr>tbl_rows := committed_rows conn, in_transaction := False\<rparr>"

text \<open>
  \<open>conn.execute("BEGIN TRANSACTION")\<close>: SQLite refuses to open a transaction inside a
  transaction.
\<close>

definition execute_begin :: "sqlite_conn \<Rightarrow> error + sqlite_conn" where
  "execute_begin conn =
     (if in_transaction conn then Inl OperationalError
      else Inr (conn\<lparr>in_transaction := True, executed := executed conn @ [BeginTransaction]\<rparr>))"

definition execute_drop :: "sqlite_conn \<Rightarrow> sqlite_conn" where
  "execute_drop conn =
     conn\<lparr>tbl_columns := None, tbl_rows := [], committed_rows := [],
          executed := executed conn @ [DropTableIfExists]\<rparr>"

text \<open>
  The scripts put a name between double quotes without escaping it. SQLite reads
  \<open>"name"\<close> as one identifier when the double quotes inside the name come in pairs,
  each pair standing for one double quote of the identifier. A double quote without a
  partner ends the identifier early and leaves the rest of the name to be read as SQL
  of its own, which SQLite refuses unless that rest happens to complete a statement.
  \<open>None\<close> stands for such a name, and the statement is then taken as refused: the
  properties below that need more than that exclude names with a double quote.
\<close>

fun unquote_ident :: "string \<Rightarrow> string option" where
  "unquote_ident [] = Some []"
| "unquote_ident [c] = (if c = CHR 0x22 then None else Some [c])"
| "unquote_ident (c # d # cs) =
     (if c = CHR 0x22
      then (if d = CHR 0x22 then map_option (Cons (CHR 0x22)) (unquote_ident cs) else None)
      else map_option (Cons c) (unquote_ident (d # cs)))"

text \<open>
  What SQLite makes of \<open>CREATE TABLE utenti (id INTEGER PRIMARY KEY AUTOINCREMENT,
  "n1" TEXT, "n2" TEXT, ...)\<close>, given the names \<open>n1, n2, ...\<close> as the script writes
  them. Python refuses a statement text that holds a NUL character; SQLite refuses a
  column name used twice, \<open>id\<close> included, comparing without regard to the case of ASCII
  letters, and more than 2000 columns. Otherwise the text columns of the table are
  the identifiers read.
\<close>

definition engine_create_columns :: "string list \<Rightarrow> error + string list" where
  "engine_create_columns names =
     (if \<exists>n \<in> set names. CHR 0x00 \<in> set n then Inl ProgrammingError
      else case those (map unquote_ident names) of
             None \<Rightarrow> Inl OperationalError
           | Some cols \<Rightarrow>
               if \<not> distinct (map py_lower (''id'' # cols)) then Inl OperationalError
               else if 2000 < Suc (length cols) then Inl OperationalError
               else Inr cols)"

text \<open>
  \<open>cursor.execute(create_sql)\<close>, for the statement \<open>create_table\<close> builds from the
  names \<open>names\<close>. A table that exists already cannot be created again; a new table has
  no rows.
\<close>

definition execute_create :: "string \<Rightarrow> string list \<Rightarrow> sqlite_conn \<Rightarrow> error + sqlite_conn" where
  "execute_create create_sql names conn =
     (if tbl_columns conn \<noteq> None then Inl OperationalError
      else case engine_create_columns names of
             Inl e \<Rightarrow> Inl e
           | Inr cols \<Rightarrow>
               Inr (conn\<lparr>tbl_columns := Some cols, tbl_rows := [],
                         executed := executed conn @ [CreateTable create_sql]\<rparr>))"

text \<open>
  \<open>cursor.execute(insert_sql, row)\<close>. The statement names the columns \<open>names\<close>, each
  between double quotes, and has one \<open>?\<close> per header field. Python refuses a text with
  a NUL character. Preparing the statement fails with \<open>OperationalError\<close> when the
  table does not exist, when no column is named (the statement of an empty header is
  not SQL), when a name is not read as one identifier, when an identifier is not a
  column of the table (compared without regard to ASCII case), or when there are more
  than 32766 placeholders. Binding fails with \<open>ProgrammingError\<close> (incorrect number
  of bindings supplied) when the row does not have exactly as many values as there
  are placeholders. Otherwise the row is appended: a column takes the value of the
  first name that denotes it, a column the statement does not name is \<open>NULL\<close>, and a
  transaction is open from then on.
\<close>

definition execute_insert ::
  "string \<Rightarrow> string list \<Rightarrow> csv_record \<Rightarrow> sqlite_conn \<Rightarrow> error + sqlite_conn" where
  "execute_insert insert_sql names row conn =
     (if \<exists>n \<in> set names. CHR 0x00 \<in> set n then Inl ProgrammingError
      else case tbl_columns conn of
        None \<Rightarrow> Inl OperationalError
      | Some cols \<Rightarrow>
          (case those (map unquote_ident names) of
             None \<Rightarrow> Inl OperationalError
           | Some idents \<Rightarrow>
               if names = [] \<or> 32766 < length names
                  \<or> \<not> set (map py_lower idents) \<subseteq> set (map py_lower cols)
               then Inl OperationalError
               else if length row \<noteq> length names then Inl ProgrammingError
               else Inr (conn\<lparr>tbl_rows := tbl_rows conn
                                  @ [map (\<lambda>col. map_of (zip (map py_lower idents) row) (py_lower col))
                                       cols],
                              in_transaction := True,
                              executed := executed conn @ [InsertRow insert_sql row]\<rparr>)))"

text \<open>\<open>get_csv_column_count\<close>.\<close>

definition get_csv_column_count :: "csv_record list \<Rightarrow> error + nat" where
  "get_csv_column_count csv_file =
     (case next_record csv_file of Inl e \<Rightarrow> Inl e | Inr (header, _) \<Rightarrow> Inr (length header))"

text \<open>
  \<open>create_table\<close>: drop, read the header again, build and execute the
  \<open>CREATE TABLE\<close> statement, commit.
\<close>

definition create_table :: "sqlite_conn \<Rightarrow> csv_record list \<Rightarrow> unit sqlite_result" where
  "create_table conn csv_file =
     (let conn1 = execute_drop conn in
      case next_record csv_file of
        Inl e \<Rightarrow> Inl (e, conn1)
      | Inr (header, _) \<Rightarrow>
          (case execute_create (sqlite_create_sql header)
                  (map sqlite_safe_col_name header) conn1 of
             Inl e \<Rightarrow> Inl (e, conn1)
           | Inr conn2 \<Rightarrow> Inr ((), conn_commit conn2)))"

text \<open>
  The loop \<open>for row in csv_reader\<close> of \<open>load_csv_to_database\<close>, \<open>total_rows\<close> being
  the running count: insert, count, and after every 1000th row commit and open the
  next transaction.
\<close>

fun insert_rows ::
  "string \<Rightarrow> string list \<Rightarrow> sqlite_conn \<Rightarrow> nat \<Rightarrow> csv_record list \<Rightarrow> nat sqlite_result" where
  "insert_rows insert_sql names conn total_rows [] = Inr (total_rows, conn)"
| "insert_rows insert_sql names conn total_rows (row # rest) =
     (case execute_insert insert_sql names row conn of
        Inl e \<Rightarrow> Inl (e, conn)
      | Inr conn1 \<Rightarrow>
          (let total_rows1 = total_rows + 1 in
           if total_rows1 mod 1000 = 0
           then (case execute_begin (conn_commit conn1) of
                   Inl e \<Rightarrow> Inl (e, conn_commit conn1)
                 | Inr conn2 \<Rightarrow> insert_rows insert_sql names conn2 total_rows1 rest)
           else insert_rows insert_sql names conn1 total_rows1 rest))"

text \<open>
  \<open>load_csv_to_database\<close>. Any exception is logged, the connection rolled back, and
  the exception raised again.
\<close>

definition load_csv_to_database :: "sqlite_conn \<Rightarrow> csv_record list \<Rightarrow> nat sqlite_result" where
  "load_csv_to_database conn csv_file =
     (case next_record csv_file of
        Inl e \<Rightarrow> Inl (e, conn_rollback conn)
      | Inr (header, data) \<Rightarrow>
          (case execute_begin conn of
             Inl e \<Rightarrow> Inl (e, conn_rollback conn)
           | Inr conn1 \<Rightarrow>
               (case insert_rows (sqlite_insert_sql header) (map sqlite_safe_col_name header)
                       conn1 0 data of
                  Inl (e, conn2) \<Rightarrow> Inl (e, conn_rollback conn2)
                | Inr (total_rows, conn2) \<Rightarrow> Inr (total_rows, conn_commit conn2))))"

text \<open>
  \<open>PRAGMA table_info(utenti)\<close> lists the key column and then the text columns; for a
  table that does not exist it lists nothing.
\<close>

definition pragma_table_info :: "sqlite_conn \<Rightarrow> string list" where
  "pragma_table_info conn =
     (case tbl_columns conn of None \<Rightarrow> [] | Some cols \<Rightarrow> ''id'' # cols)"

text \<open>
  SQLite's \<open>v LIKE 'https://%'\<close>: the value starts with \<open>https://\<close>, compared without
  regard to the case of ASCII letters.
\<close>

definition like_https :: "string \<Rightarrow> bool" where
  "like_https v = (py_lower (take 8 v) = ''https://'')"

text \<open>
  \<open>SELECT COUNT(*) FROM utenti WHERE "col" LIKE 'https://%'\<close>, the listed name being
  put between the double quotes as it is. Python refuses a text with a NUL character,
  and a name that is not read as one identifier is a syntax error. The identifier
  read denotes the column of that name (without regard to ASCII case): the rows
  counted are those whose value there is not \<open>NULL\<close> and passes \<open>LIKE\<close>; the key
  column holds numbers, which never pass. An identifier that is no column of the table
  is read by SQLite as the string of that text, the same for every row.
\<close>

definition select_count_https :: "sqlite_conn \<Rightarrow> string \<Rightarrow> error + nat" where
  "select_count_https conn col =
     (if CHR 0x00 \<in> set col then Inl ProgrammingError
      else case (tbl_columns conn, unquote_ident col) of
        (None, _) \<Rightarrow> Inl OperationalError
      | (Some cols, None) \<Rightarrow> Inl OperationalError
      | (Some cols, Some ident) \<Rightarrow>
          if py_lower ident \<in> set (map py_lower cols)
          then Inr (length (filter
                  (\<lambda>row. case map_of (zip (map py_lower cols) row) (py_lower ident) of
                            Some (Some v) \<Rightarrow> like_https v
                          | _ \<Rightarrow> False)
                  (tbl_rows conn)))
          else if py_lower ident = ''id'' then Inr 0
          else Inr (if like_https ident then length (tbl_rows conn) else 0))"

text \<open>
  \<open>count_https_websites\<close>. \<open>if not website_col\<close> holds for \<open>None\<close> and for the empty
  name. An exception of the count query is logged and raised again.
\<close>

definition count_https_websites :: "sqlite_conn \<Rightarrow> nat sqlite_result" where
  "count_https_websites conn =
     (let conn1 = conn\<lparr>executed := executed conn @ [PragmaTableInfo]\<rparr>;
          columns = pragma_table_info conn;
          website_col = scan_fields sqlite_website_test columns
      in case website_col of
           None \<Rightarrow> Inr (0, conn1)
         | Some col \<Rightarrow>
             if col = [] then Inr (0, conn1)
             else (case select_count_https conn col of
                     Inl e \<Rightarrow> Inl (e, conn1)
                   | Inr result \<Rightarrow>
                       Inr (result, conn1\<lparr>executed := executed conn1 @ [SelectCountHttps col]\<rparr>)))"

text \<open>
  \<open>main\<close> once the file is known to exist and the connection is open: the two numbers
  of the result block, or the exception that \<open>main\<close> logs instead of printing it.
\<close>

definition sqlite_main :: "sqlite_conn \<Rightarrow> csv_record list \<Rightarrow> error + (nat \<times> nat)" where
  "sqlite_main conn csv_file =
     (case get_csv_column_count csv_file of
        Inl e \<Rightarrow> Inl e
      | Inr column_count \<Rightarrow>
          (case create_table conn csv_file of
             Inl (e, _) \<Rightarrow> Inl e
           | Inr (_, conn1) \<Rightarrow>
               (case load_csv_to_database conn1 csv_file of
                  Inl (e, _) \<Rightarrow> Inl e
                | Inr (rows_loaded, conn2) \<Rightarrow>
                    (case count_https_websites conn2 of
                       Inl (e, _) \<Rightarrow> Inl e
                     | Inr (https_websites_count, _) \<Rightarrow>
                         Inr (rows_loaded, https_websites_count)))))"

section \<open>The document store (\<open>mongodb_script.py\<close>)\<close>

text \<open>
  A stored value is the text of the file, a \<open>datetime\<close> (at midnight, so year, month
  and day), \<open>None\<close>, or the identifier the driver gives a document. A document is a
  Python \<open>dict\<close>: keys in insertion order, each once.
\<close>

datatype mvalue = Text string | Datetime nat nat nat | Null | ObjectId nat

type_synonym document = "(string \<times> mvalue) list"

text \<open>
  \<open>datetime.strptime(value, "%Y-%m-%d")\<close> is a function of the Python library: the
  loader takes it as the parameter \<open>strptime\<close>, \<open>None\<close> standing for \<open>ValueError\<close>.
  \<open>strptime_ymd\<close> below is the library's function on ASCII text, for concrete runs.
\<close>

type_synonym date_parser = "string \<Rightarrow> (nat \<times> nat \<times> nat) option"

definition digit_of :: "char \<Rightarrow> nat option" where
  "digit_of c = map_of (zip ''0123456789'' [0, 1, 2, 3, 4, 5, 6, 7, 8, 9]) c"

text \<open>
  The alternatives of the library's patterns for \<open>%m\<close>
  (\<open>1[0-2]|0[1-9]|[1-9]\<close>) and \<open>%d\<close> (\<open>3[0-1]|[1-2]\d|0[1-9]|[1-9]| [1-9]\<close>), in
  the order the regular expression tries them: each match with the text left after it.
\<close>

definition month_alternatives :: "string \<Rightarrow> (nat \<times> string) list" where
  "month_alternatives s =
     (case s of
        a # b # rest \<Rightarrow>
          (case (digit_of a, digit_of b) of
             (Some x, Some y) \<Rightarrow>
               (if x = 1 \<and> y \<le> 2 then [(10 + y, rest)] else [])
               @ (if x = 0 \<and> 1 \<le> y then [(y, rest)] else [])
           | _ \<Rightarrow> [])
      | _ \<Rightarrow> [])
     @ (case s of
          a # rest \<Rightarrow> (case digit_of a of Some x \<Rightarrow> if 1 \<le> x then [(x, rest)] else [] | None \<Rightarrow> [])
        | [] \<Rightarrow> [])"

definition day_alternatives :: "string \<Rightarrow> (nat \<times> string) list" where
  "day_alternatives s =
     (case s of
        a # b # rest \<Rightarrow>
          (case (digit_of a, digit_of b) of
             (Some x, Some y) \<Rightarrow>
               (if x = 3 \<and> y \<le> 1 then [(30 + y, rest)] else [])
               @ (if x = 1 \<or> x = 2 then [(10 * x + y, rest)] else [])
               @ (if x = 0 \<and> 1 \<le> y then [(y, rest)] else [])
           | _ \<Rightarrow> [])
      | _ \<Rightarrow> [])
     @ (case s of
          a # rest \<Rightarrow> (case digit_of a of Some x \<Rightarrow> if 1 \<le> x then [(x, rest)] else [] | None \<Rightarrow> [])
        | [] \<Rightarrow> [])
     @ (case s of
          a # b # rest \<Rightarrow>
            (if a = CHR '' '' then
               (case digit_of b of Some y \<Rightarrow> if 1 \<le> y then [(y, rest)] else [] | None \<Rightarrow> [])
             else [])
        | _ \<Rightarrow> [])"

definition is_leap :: "nat \<Rightarrow> bool" where
  "is_leap y = (y mod 4 = 0 \<and> (y mod 100 \<noteq> 0 \<or> y mod 400 = 0))"

definition days_in_month :: "nat \<Rightarrow> nat \<Rightarrow> nat" where
  "days_in_month y m =
     (if m = 2 then (if is_leap y then 29 else 28)
      else if m \<in> set [4, 6, 9, 11] then 30 else 31)"

text \<open>
  Four digits, a hyphen, the first month alternative that lets the match go on with a
  hyphen and a day, the first day alternative; then nothing may be left of the text, and
  \<open>datetime(year, month, day)\<close> must exist (years start at 1).
\<close>

definition strptime_ymd :: date_parser where
  "strptime_ymd s =
     (case s of
        y1 # y2 # y3 # y4 # h # rest \<Rightarrow>
          (case (digit_of y1, digit_of y2, digit_of y3, digit_of y4) of
             (Some a, Some b, Some c, Some d) \<Rightarrow>
               if h \<noteq> CHR ''-'' then None
               else
                 (case filter (\<lambda>(m, r). case r of
                                           h2 # r2 \<Rightarrow> h2 = CHR ''-'' \<and> day_alternatives r2 \<noteq> []
                                         | [] \<Rightarrow> False)
                              (month_alternatives rest) of
                    [] \<Rightarrow> None
                  | (month, r) # _ \<Rightarrow>
                      (case day_alternatives (tl r) of
                         [] \<Rightarrow> None
                       | (day, left) # _ \<Rightarrow>
                           (let year = 1000 * a + 100 * b + 10 * c + d in
                            if left \<noteq> [] then None
                            else if year < 1 \<or> days_in_month year month < day then None
                            else Some (year, month, day))))
           | _ \<Rightarrow> None)
      | _ \<Rightarrow> None)"

text \<open>
  The body of the loop over the header in \<open>load_csv_to_mongodb\<close>:
  \<^verbatim>\<open>
  if 'date' in col_name.lower() or 'data' in col_name.lower():
      try:
          value = datetime.strptime(value, "%Y-%m-%d") if value else None
      except ValueError:
          pass
  \<close>
\<close>

definition is_date_column :: "string \<Rightarrow> bool" where
  "is_date_column col_name =
     (py_in ''date'' (py_lower col_name) \<or> py_in ''data'' (py_lower col_name))"

definition field_value :: "date_parser \<Rightarrow> string \<Rightarrow> string \<Rightarrow> mvalue" where
  "field_value strptime col_name v =
     (if is_date_column col_name
      then (if v \<noteq> []
            then (case strptime v of Some (y, m, d) \<Rightarrow> Datetime y m d | None \<Rightarrow> Text v)
            else Null)
      else Text v)"

text \<open>
  \<open>for i, col_name in enumerate(header): if i < len(row): ... doc[col_name] = value\<close>.
  Assigning to a key that is already there keeps its place.
\<close>

definition build_doc :: "date_parser \<Rightarrow> csv_record \<Rightarrow> csv_record \<Rightarrow> document" where
  "build_doc strptime header row =
     foldl (\<lambda>doc (i, col_name).
              if i < length row
              then AList.update col_name (field_value strptime col_name (row ! i)) doc
              else doc)
           [] (enumerate 0 header)"

datatype mongo_op =
    ListCollectionNames
  | DropCollection
  | InsertMany nat
  | FindOne
  | CountDocuments string

text \<open>
  The database: the documents of collection \<open>utenti\<close> (none when the collection does not
  exist), the number of the next identifier the driver generates, and the operations
  issued so far.
\<close>

record mongo_db =
  utenti :: "document list"
  next_oid :: nat
  issued :: "mongo_op list"

type_synonym 'a mongo_result = "(error \<times> mongo_db) + ('a \<times> mongo_db)"

text \<open>
  A document without \<open>_id\<close> gets a generated one, which no other document has; the
  stored document has \<open>_id\<close> first.
\<close>

definition store_document :: "nat \<Rightarrow> document \<Rightarrow> document" where
  "store_document oid doc =
     (case map_of doc ''_id'' of
        None \<Rightarrow> (''_id'', ObjectId oid) # doc
      | Some v \<Rightarrow> (''_id'', v) # AList.delete ''_id'' doc)"

text \<open>
  The server takes the documents of an ordered insert one by one and stops at the
  first whose own \<open>_id\<close> is already that of a document of the collection: the
  documents before it stay inserted. The flag says whether all were taken.
\<close>

fun insert_ordered :: "document list \<Rightarrow> nat \<Rightarrow> document list \<Rightarrow> document list \<times> bool" where
  "insert_ordered coll oid [] = (coll, True)"
| "insert_ordered coll oid (doc # docs) =
     (case map_of doc ''_id'' of
        None \<Rightarrow> insert_ordered (coll @ [store_document oid doc]) (Suc oid) docs
      | Some v \<Rightarrow>
          if Some v \<in> set (map (\<lambda>d. map_of d ''_id'') coll) then (coll, False)
          else insert_ordered (coll @ [store_document oid doc]) (Suc oid) docs)"

text \<open>
  \<open>collection.insert_many(documents)\<close>. The driver raises \<open>TypeError\<close> for an empty
  list and \<open>InvalidDocument\<close>, before anything is sent, for a key with a NUL
  character; a repeated \<open>_id\<close> makes the server stop and the driver raise
  \<open>BulkWriteError\<close>. Field names are otherwise free, as they are for the current
  driver and server.
\<close>

definition insert_many :: "mongo_db \<Rightarrow> document list \<Rightarrow> (error \<times> mongo_db) + mongo_db" where
  "insert_many db documents =
     (if documents = [] then Inl (TypeError, db)
      else if \<exists>doc \<in> set documents. \<exists>k \<in> fst ` set doc. CHR 0x00 \<in> set k
      then Inl (InvalidDocument, db)
      else case insert_ordered (utenti db) (next_oid db) documents of
             (coll, ok) \<Rightarrow>
               (let db1 = db\<lparr>utenti := coll, next_oid := next_oid db + length documents,
                             issued := issued db @ [InsertMany (length documents)]\<rparr>
                in if ok then Inr db1 else Inl (BulkWriteError, db1)))"

definition drop_collection :: "mongo_db \<Rightarrow> mongo_db" where
  "drop_collection db =
     (if utenti db \<noteq> []
      then db\<lparr>utenti := [], issued := issued db @ [ListCollectionNames, DropCollection]\<rparr>
      else db\<lparr>utenti := [], issued := issued db @ [ListCollectionNames]\<rparr>)"

text \<open>
  The loop \<open>for row in csv_reader\<close> of \<open>load_csv_to_mongodb\<close>: \<open>total_rows\<close> and the
  batch \<open>documents\<close> are its variables; a batch of 1000 is inserted and emptied. An
  exception of \<open>insert_many\<close> ends the loop.
\<close>

fun load_rows ::
  "date_parser \<Rightarrow> csv_record \<Rightarrow> mongo_db \<Rightarrow> nat \<Rightarrow> document list \<Rightarrow> csv_record list
     \<Rightarrow> (error \<times> mongo_db) + (nat \<times> document list \<times> mongo_db)" where
  "load_rows strptime header db total_rows documents [] = Inr (total_rows, documents, db)"
| "load_rows strptime header db total_rows documents (row # rest) =
     (let doc = build_doc strptime header row;
          documents1 = documents @ [doc];
          total_rows1 = total_rows + 1
      in if length documents1 \<ge> 1000
         then (case insert_many db documents1 of
                 Inl e \<Rightarrow> Inl e
               | Inr db1 \<Rightarrow> load_rows strptime header db1 total_rows1 [] rest)
         else load_rows strptime header db total_rows1 documents1 rest)"

text \<open>
  \<open>load_csv_to_mongodb\<close>. Any exception is logged and raised again.
\<close>

definition load_csv_to_mongodb ::
  "date_parser \<Rightarrow> mongo_db \<Rightarrow> csv_record list \<Rightarrow> nat mongo_result" where
  "load_csv_to_mongodb strptime db csv_file =
     (case next_record csv_file of
        Inl e \<Rightarrow> Inl (e, db)
      | Inr (header, data) \<Rightarrow>
          (case load_rows strptime header db 0 [] data of
             Inl e \<Rightarrow> Inl e
           | Inr (total_rows, documents, db1) \<Rightarrow>
               if documents \<noteq> []
               then (case insert_many db1 documents of
                       Inl e \<Rightarrow> Inl e
                     | Inr db2 \<Rightarrow> Inr (total_rows, db2))
               else Inr (total_rows, db1)))"

definition find_one :: "mongo_db \<Rightarrow> document option" where
  "find_one db = (case utenti db of [] \<Rightarrow> None | doc # _ \<Rightarrow> Some doc)"

text \<open>
  \<open>count_documents({date_field: {"$gte": datetime(2020, 1, 1), "$lte":
  datetime(2020, 12, 31, 23, 59, 59)}})\<close>: only a \<open>datetime\<close> compares with a
  \<open>datetime\<close>, and a stored one is at midnight. The driver refuses a key with a NUL
  character; the server reads a key that starts with \<open>$\<close> as an operator it does not
  know, and a key with a dot as a path into a sub-document, which no document here
  has.
\<close>

definition date_le :: "nat \<times> nat \<times> nat \<Rightarrow> nat \<times> nat \<times> nat \<Rightarrow> bool" where
  "date_le a b =
     (case (a, b) of
        ((y1, m1, d1), (y2, m2, d2)) \<Rightarrow>
          y1 < y2 \<or> (y1 = y2 \<and> (m1 < m2 \<or> (m1 = m2 \<and> d1 \<le> d2))))"

definition count_documents_2020 :: "mongo_db \<Rightarrow> string \<Rightarrow> error + nat" where
  "count_documents_2020 db date_field =
     (if CHR 0x00 \<in> set date_field then Inl InvalidDocument
      else if take 1 date_field = ''$'' then Inl OperationFailure
      else if CHR ''.'' \<in> set date_field then Inr 0
      else Inr (length (filter
                  (\<lambda>doc. case map_of doc date_field of
                            Some (Datetime y m d) \<Rightarrow>
                              date_le (2020, 1, 1) (y, m, d) \<and> date_le (y, m, d) (2020, 12, 31)
                          | _ \<Rightarrow> False)
                  (utenti db))))"

text \<open>
  \<open>count_2020_subscriptions\<close>: the fields of the first document, in their order.
  \<open>if document_example\<close> fails for no document and for an empty one,
  \<open>if not date_field\<close> holds for \<open>None\<close> and for the empty name. An exception of the
  count is logged and raised again.
\<close>

definition mongo_date_field :: "document option \<Rightarrow> string option" where
  "mongo_date_field document_example =
     (case document_example of
        None \<Rightarrow> None
      | Some doc \<Rightarrow> if doc = [] then None else scan_fields mongo_subscription_test (map fst doc))"

definition count_2020_subscriptions :: "mongo_db \<Rightarrow> nat mongo_result" where
  "count_2020_subscriptions db =
     (let db1 = db\<lparr>issued := issued db @ [FindOne]\<rparr>;
          date_field = mongo_date_field (find_one db)
      in case date_field of
           None \<Rightarrow> Inr (0, db1)
         | Some field \<Rightarrow>
             if field = [] then Inr (0, db1)
             else (case count_documents_2020 db field of
                     Inl e \<Rightarrow> Inl (e, db1)
                   | Inr result \<Rightarrow>
                       Inr (result, db1\<lparr>issued := issued db1 @ [CountDocuments field]\<rparr>)))"

text \<open>\<open>main\<close> once the file is known to exist and the client is connected.\<close>

definition mongo_main ::
  "date_parser \<Rightarrow> mongo_db \<Rightarrow> csv_record list \<Rightarrow> error + (nat \<times> nat)" where
  "mongo_main strptime db csv_file =
     (case load_csv_to_mongodb strptime (drop_collection db) csv_file of
        Inl (e, _) \<Rightarrow> Inl e
      | Inr (rows_loaded, db1) \<Rightarrow>
          (case count_2020_subscriptions db1 of
             Inl (e, _) \<Rightarrow> Inl e
           | Inr (subscriptions_2020, _) \<Rightarrow> Inr (rows_loaded, subscriptions_2020)))"

section \<open>Properties of the string operations\<close>

lemma py_lower_char_idem: "py_lower_char (py_lower_char c) = py_lower_char c"
  unfolding py_lower_char_def by (simp split: if_splits)

lemma py_lower_char_space: "py_lower_char c = CHR '' '' \<longleftrightarrow> c = CHR '' ''"
  unfolding py_lower_char_def by (simp split: if_splits)

lemma py_lower_char_underscore: "py_lower_char CHR ''_'' = CHR ''_''"
  unfolding py_lower_char_def by simp

lemma py_lower_idem: "py_lower (py_lower s) = py_lower s"
  by (simp add: py_lower_def py_lower_char_idem)

lemma py_lower_append: "py_lower (s @ t) = py_lower s @ py_lower t"
  by (simp add: py_lower_def)

lemma replace_space_append: "replace_space (s @ t) = replace_space s @ replace_space t"
  by (simp add: replace_space_def)

lemma py_lower_replace_space: "py_lower (replace_space s) = replace_space (py_lower s)"
  unfolding py_lower_def replace_space_def
  by (induction s) (simp_all add: py_lower_char_space py_lower_char_underscore)

lemma replace_space_idem: "replace_space (replace_space s) = replace_space s"
  unfolding replace_space_def by (induction s) auto

lemma lower_replace_idem:
  "replace_space (py_lower (replace_space (py_lower s))) = replace_space (py_lower s)"
  by (simp add: py_lower_replace_space py_lower_idem replace_space_idem)

lemma py_in_sublist: "py_in sub s = sublist sub s"
  by (induction s) (auto simp: sublist_Cons_right)

lemma py_in_trans: "py_in a b \<Longrightarrow> py_in b c \<Longrightarrow> py_in a c"
  unfolding py_in_sublist by (rule sublist_order.order_trans)

section \<open>Properties of the sanitizers\<close>

lemma reserved_lower: "map py_lower RESERVED_WORDS = RESERVED_WORDS"
  by code_simp

lemma is_reserved_iff: "is_reserved s \<longleftrightarrow> py_lower s \<in> set RESERVED_WORDS"
  by (simp add: is_reserved_def reserved_lower)

lemma reserved_no_col: "\<forall>w \<in> set RESERVED_WORDS. drop (length w - 4) w \<noteq> ''_col''"
  by code_simp

lemma suffix_col_lower: "py_lower ''_col'' = ''_col''" and suffix_col_replace: "replace_space ''_col'' = ''_col''"
  by (simp_all add: py_lower_def py_lower_char_def replace_space_def)

lemma suffixed_not_reserved: "\<not> is_reserved (s @ ''_col'')"
proof
  assume "is_reserved (s @ ''_col'')"
  then have "py_lower s @ ''_col'' \<in> set RESERVED_WORDS"
    by (simp add: is_reserved_iff py_lower_append suffix_col_lower)
  with reserved_no_col
  have "drop (length (py_lower s @ ''_col'') - 4) (py_lower s @ ''_col'') \<noteq> ''_col''"
    by blast
  then show False by simp
qed

lemma sqlite_via_lower_replace:
  "sqlite_safe_col_name x =
     (if replace_space (py_lower x) \<in> set RESERVED_WORDS
      then replace_space (py_lower x) @ ''_col'' else replace_space (py_lower x))"
  by (simp add: sqlite_safe_col_name_def Let_def is_reserved_iff py_lower_replace_space py_lower_idem)

lemma sqlite_safe_col_name_idem:
  "sqlite_safe_col_name (sqlite_safe_col_name x) = sqlite_safe_col_name x"
proof (cases "is_reserved (replace_space (py_lower x))")
  case True
  have "replace_space (py_lower (replace_space (py_lower x) @ ''_col''))
          = replace_space (py_lower x) @ ''_col''"
    by (simp add: py_lower_append replace_space_append lower_replace_idem
          suffix_col_lower suffix_col_replace)
  with True show ?thesis
    by (simp add: sqlite_safe_col_name_def Let_def suffixed_not_reserved)
next
  case False
  then show ?thesis by (simp add: sqlite_safe_col_name_def Let_def lower_replace_idem)
qed

lemma pg_safe_col_name_idem: "pg_safe_col_name (pg_safe_col_name x) = pg_safe_col_name x"
  by (simp add: pg_safe_col_name_def lower_replace_idem)

lemma pg_safe_col_name_nth:
  "i < length x \<Longrightarrow>
     pg_safe_col_name x ! i = (if x ! i = CHR '' '' then CHR ''_'' else py_lower_char (x ! i))"
  by (simp add: pg_safe_col_name_def replace_space_def py_lower_def py_lower_char_space)

lemma scenario_header_pg:
  "map pg_safe_col_name [''Name'', ''Email Address'', ''Sign-up Date'']
     = [''name'', ''email_address'', ''sign-up_date'']"
  by code_simp

lemma scenario_header_sqlite:
  "map sqlite_safe_col_name [''Name'', ''Email Address'', ''Sign-up Date'']
     = [''name'', ''email_address'', ''sign-up_date'']"
proof -
  have "map (\<lambda>x. replace_space (py_lower x)) [''Name'', ''Email Address'', ''Sign-up Date'']
          = [''name'', ''email_address'', ''sign-up_date'']"
    by code_simp
  then show ?thesis
    by (simp add: sqlite_via_lower_replace RESERVED_WORDS_def)
qed

text \<open>
  C2, as the code has it. Both scripts lower-case the name and turn every single space
  into one underscore, position by position: a run of spaces becomes as many
  underscores, and a tab or any other character that is not a space is only
  lower-cased. The SQLite script then appends \<open>_col\<close> when that result is reserved.
\<close>

theorem sanitize_lowers_and_replaces_each_space:
  "length (pg_safe_col_name x) = length x
   \<and> (\<forall>i < length x.
         pg_safe_col_name x ! i = (if x ! i = CHR '' '' then CHR ''_'' else py_lower_char (x ! i)))
   \<and> sqlite_safe_col_name x =
         (if is_reserved (pg_safe_col_name x) then pg_safe_col_name x @ ''_col''
          else pg_safe_col_name x)"
  by (simp add: pg_safe_col_name_nth)
     (simp add: pg_safe_col_name_def sqlite_safe_col_name_def Let_def replace_space_def py_lower_def)

theorem sanitize_lowers_and_replaces_each_space_witness:
  "length (pg_safe_col_name ''A  b'') = 4
   \<and> pg_safe_col_name ''A  b'' ! 0 = CHR ''a''
   \<and> pg_safe_col_name ''A  b'' ! 1 = CHR ''_''
   \<and> pg_safe_col_name ''A  b'' ! 2 = CHR ''_''
   \<and> pg_safe_col_name ''A  b'' ! 3 = CHR ''b''"
  using sanitize_lowers_and_replaces_each_space [of "''A  b''"]
  by (simp add: py_lower_char_def)

text \<open>
  C2 as the specification states it fails: two consecutive spaces give two
  underscores, where collapsing the whitespace run would give one.
\<close>

theorem whitespace_run_counterexample:
  "sqlite_safe_col_name ''First  Name'' = ''first__name''
   \<and> spec_sanitize ''First  Name'' = ''first_name''
   \<and> sqlite_safe_col_name ''First  Name'' \<noteq> spec_sanitize ''First  Name''"
proof -
  have a: "replace_space (py_lower ''First  Name'') = ''first__name''"
    by code_simp
  have b: "spec_collapse_runs False (py_lower ''First  Name'') = ''first_name''"
    by code_simp
  have c: "py_lower ''first_name'' = ''first_name''"
    by code_simp
  have "sqlite_safe_col_name ''First  Name'' = ''first__name''"
    by (simp add: sqlite_via_lower_replace a RESERVED_WORDS_def)
  moreover have "spec_sanitize ''First  Name'' = ''first_name''"
    by (simp add: spec_sanitize_def Let_def b is_reserved_iff c RESERVED_WORDS_def)
  ultimately show ?thesis by simp
qed

text \<open>
  C3. Sanitizing a sanitized name changes nothing, for the SQLite sanitizer (no reserved
  word followed by \<open>_col\<close> is reserved) and for the PostgreSQL one.
\<close>

theorem sanitize_idempotent:
  "sqlite_safe_col_name (sqlite_safe_col_name x) = sqlite_safe_col_name x
   \<and> pg_safe_col_name (pg_safe_col_name x) = pg_safe_col_name x"
  by (simp add: sqlite_safe_col_name_idem pg_safe_col_name_idem)

theorem sanitize_idempotent_witness:
  "sqlite_safe_col_name ''Select'' = ''select_col''
   \<and> sqlite_safe_col_name (sqlite_safe_col_name ''Select'') = ''select_col''"
proof -
  have a: "replace_space (py_lower ''Select'') = ''select''"
    by code_simp
  have "sqlite_safe_col_name ''Select'' = ''select_col''"
    by (simp add: sqlite_via_lower_replace a RESERVED_WORDS_def)
  with sanitize_idempotent [of "''Select''"] show ?thesis by simp
qed

section \<open>Properties of the field matcher\<close>

lemma scan_fields_None:
  "scan_fields crit cols = None \<longleftrightarrow> (\<forall>f \<in> set cols. \<not> crit (py_lower f))"
  by (induction cols) auto

lemma scan_fields_Some:
  "scan_fields crit cols = Some f \<longleftrightarrow>
     (\<exists>i < length cols. cols ! i = f \<and> crit (py_lower f)
        \<and> (\<forall>j < i. \<not> crit (py_lower (cols ! j))))"
proof (induction cols)
  case Nil
  then show ?case by simp
next
  case (Cons c cs)
  show ?case
  proof (cases "crit (py_lower c)")
    case True
    show ?thesis
    proof
      assume "scan_fields crit (c # cs) = Some f"
      with True have "c = f" by simp
      with True show "\<exists>i<length (c # cs). (c # cs) ! i = f \<and> crit (py_lower f)
          \<and> (\<forall>j<i. \<not> crit (py_lower ((c # cs) ! j)))"
        by (intro exI[of _ 0]) simp
    next
      assume "\<exists>i<length (c # cs). (c # cs) ! i = f \<and> crit (py_lower f)
          \<and> (\<forall>j<i. \<not> crit (py_lower ((c # cs) ! j)))"
      then obtain i where i: "(c # cs) ! i = f" "\<forall>j<i. \<not> crit (py_lower ((c # cs) ! j))"
        by blast
      have "i = 0"
      proof (rule ccontr)
        assume "i \<noteq> 0"
        then have "0 < i" by simp
        with i(2) have "\<not> crit (py_lower ((c # cs) ! 0))" by blast
        with True show False by simp
      qed
      with i(1) True show "scan_fields crit (c # cs) = Some f" by simp
    qed
  next
    case False
    have "(\<exists>i<length (c # cs). (c # cs) ! i = f \<and> crit (py_lower f)
              \<and> (\<forall>j<i. \<not> crit (py_lower ((c # cs) ! j))))
        \<longleftrightarrow> (\<exists>i<length cs. cs ! i = f \<and> crit (py_lower f)
              \<and> (\<forall>j<i. \<not> crit (py_lower (cs ! j))))"
      (is "?L \<longleftrightarrow> ?R")
    proof
      assume ?L
      then obtain i where i: "i < length (c # cs)" "(c # cs) ! i = f" "crit (py_lower f)"
        "\<forall>j<i. \<not> crit (py_lower ((c # cs) ! j))" by blast
      from i(2,3) False obtain k where k: "i = Suc k" by (cases i) auto
      have "\<forall>j<k. \<not> crit (py_lower (cs ! j))"
      proof (intro allI impI)
        fix j assume "j < k"
        then have "Suc j < i" using k by simp
        with i(4) have "\<not> crit (py_lower ((c # cs) ! Suc j))" by blast
        then show "\<not> crit (py_lower (cs ! j))" by simp
      qed
      with i k show ?R by (intro exI[of _ k]) simp
    next
      assume ?R
      then obtain k where k: "k < length cs" "cs ! k = f" "crit (py_lower f)"
        "\<forall>j<k. \<not> crit (py_lower (cs ! j))" by blast
      have "\<forall>j<Suc k. \<not> crit (py_lower ((c # cs) ! j))"
      proof (intro allI impI)
        fix j assume "j < Suc k"
        then show "\<not> crit (py_lower ((c # cs) ! j))"
          using False k(4) by (cases j) auto
      qed
      with k show ?L by (intro exI[of _ "Suc k"]) simp
    qed
    with False Cons.IH show ?thesis by simp
  qed
qed

lemma duckdb_website_test_substrings:
  "duckdb_website_test n = (py_in ''site'' n \<or> py_in ''sito'' n)"
proof -
  have "py_in ''site'' ''website''" by simp
  then show ?thesis unfolding duckdb_website_test_def by auto
qed

lemma sqlite_website_test_substrings:
  "sqlite_website_test n = (py_in ''site'' n \<or> py_in ''sito'' n)"
proof -
  have a: "py_in ''site'' ''website''" by simp
  then have "py_in ''website'' n \<Longrightarrow> py_in ''site'' n" by (rule py_in_trans)
  with a show ?thesis unfolding sqlite_website_test_def by auto
qed

lemma pg_email_test_substrings: "pg_email_test n = py_in ''mail'' n"
proof -
  have a: "py_in ''mail'' ''email''" by simp
  then have "py_in ''email'' n \<Longrightarrow> py_in ''mail'' n" by (rule py_in_trans)
  with a show ?thesis unfolding pg_email_test_def by auto
qed

lemma pg_email_test_keyword: "pg_email_test = keyword_test ''email'' [''email'', ''mail'']"
  by (rule ext) (simp add: pg_email_test_def keyword_test_def)

lemma sqlite_website_test_keyword:
  "sqlite_website_test = keyword_test ''website'' [''website'', ''site'', ''sito'']"
  by (rule ext) (simp add: sqlite_website_test_def keyword_test_def)

lemma duckdb_website_test_keyword:
  "duckdb_website_test = keyword_test ''website'' [''site'', ''sito'']"
  by (rule ext) (simp add: duckdb_website_test_def keyword_test_def)

lemma lower_scenario_fields:
  "py_lower ''name'' = ''name'' \<and> py_lower ''email_address'' = ''email_address''
   \<and> py_lower ''sign-up_date'' = ''sign-up_date'' \<and> py_lower ''site_id'' = ''site_id''
   \<and> py_lower ''website'' = ''website''"
  by code_simp

text \<open>
  C5, as the code has it. The matcher returns the first field, in the order listed,
  whose lower-cased name passes the test, and \<open>None\<close> when none passes. Within one
  field the equality is tried before the containments, but it decides nothing: a name
  equal to the primary keyword contains \<open>site\<close> (or \<open>mail\<close>) anyway. So an earlier
  field that only contains a substring wins over a later field equal to the keyword.
\<close>

theorem field_matcher_returns_first_passing_field:
  "(scan_fields crit cols = None \<longleftrightarrow> (\<forall>f \<in> set cols. \<not> crit (py_lower f)))
   \<and> (scan_fields crit cols = Some f \<longleftrightarrow>
        (\<exists>i < length cols. cols ! i = f \<and> crit (py_lower f)
           \<and> (\<forall>j < i. \<not> crit (py_lower (cols ! j)))))
   \<and> duckdb_website_test n = (py_in ''site'' n \<or> py_in ''sito'' n)
   \<and> sqlite_website_test n = (py_in ''site'' n \<or> py_in ''sito'' n)
   \<and> pg_email_test n = py_in ''mail'' n"
  using scan_fields_None [of crit cols] scan_fields_Some [of crit cols f]
    duckdb_website_test_substrings [of n] sqlite_website_test_substrings [of n]
    pg_email_test_substrings [of n]
  by blast

theorem field_matcher_returns_first_passing_field_witness:
  "scan_fields pg_email_test [''name'', ''mail_box'', ''email''] = Some ''mail_box''
   \<and> (\<exists>i < length [''name'', ''mail_box'', ''email''].
         [''name'', ''mail_box'', ''email''] ! i = ''mail_box''
         \<and> pg_email_test (py_lower ''mail_box''))"
proof -
  have a: "py_lower ''name'' = ''name''" "py_lower ''mail_box'' = ''mail_box''"
    by code_simp+
  have b: "scan_fields pg_email_test [''name'', ''mail_box'', ''email''] = Some ''mail_box''"
    by (simp add: a pg_email_test_def)
  with field_matcher_returns_first_passing_field
         [of pg_email_test "[''name'', ''mail_box'', ''email'']" "''mail_box''"]
  show ?thesis by blast
qed

text \<open>
  C5 as the specification states it fails: with the fields \<open>site_id\<close> and \<open>website\<close> in
  this order, the second equals the primary keyword and the first only contains
  \<open>site\<close>, yet the first is returned, by the DuckDB test and by the SQLite one.
\<close>

theorem exact_match_priority_counterexample:
  "scan_fields duckdb_website_test [''site_id'', ''website''] = Some ''site_id''
   \<and> scan_fields sqlite_website_test [''site_id'', ''website''] = Some ''site_id''
   \<and> py_lower ''website'' = ''website'' \<and> py_lower ''site_id'' \<noteq> ''website''"
  by (simp add: lower_scenario_fields duckdb_website_test_def sqlite_website_test_def)

text \<open>
  C7, as the code has it. The header \<open>Name, Email Address, Sign-up Date\<close> is stored as
  \<open>name, email_address, sign-up_date\<close>, the hyphen kept, by both sanitizers; on these
  fields the e-mail matcher of the PostgreSQL script, which is the keyword test for
  \<open>email\<close> with the substrings \<open>email\<close> and \<open>mail\<close>, returns \<open>email_address\<close>, and
  the keyword test for \<open>phone\<close> finds no field.
\<close>

theorem scenario_header_and_matches:
  "map pg_safe_col_name [''Name'', ''Email Address'', ''Sign-up Date'']
      = [''name'', ''email_address'', ''sign-up_date'']
   \<and> map sqlite_safe_col_name [''Name'', ''Email Address'', ''Sign-up Date'']
      = [''name'', ''email_address'', ''sign-up_date'']
   \<and> pg_email_test = keyword_test ''email'' [''email'', ''mail'']
   \<and> scan_fields pg_email_test [''name'', ''email_address'', ''sign-up_date'']
      = Some ''email_address''
   \<and> scan_fields (keyword_test ''phone'' [''phone''])
        [''name'', ''email_address'', ''sign-up_date''] = None"
proof -
  have "scan_fields pg_email_test [''name'', ''email_address'', ''sign-up_date'']
          = Some ''email_address''"
    by (simp add: lower_scenario_fields pg_email_test_def)
  moreover have "scan_fields (keyword_test ''phone'' [''phone''])
        [''name'', ''email_address'', ''sign-up_date''] = None"
    by (simp add: lower_scenario_fields keyword_test_def)
  ultimately show ?thesis
    using scenario_header_pg scenario_header_sqlite pg_email_test_keyword by simp
qed

text \<open>
  C7 as the specification states it fails at its first step: sanitizing
  \<open>Sign-up Date\<close> gives \<open>sign-up_date\<close>, not \<open>sign_up_date\<close>.
\<close>

theorem scenario_header_counterexample:
  "map pg_safe_col_name [''Name'', ''Email Address'', ''Sign-up Date'']
      \<noteq> [''name'', ''email_address'', ''sign_up_date'']
   \<and> map sqlite_safe_col_name [''Name'', ''Email Address'', ''Sign-up Date'']
      \<noteq> [''name'', ''email_address'', ''sign_up_date'']
   \<and> pg_safe_col_name ''Sign-up Date'' = ''sign-up_date''"
proof -
  have "pg_safe_col_name ''Sign-up Date'' = ''sign-up_date''"
    by code_simp
  then show ?thesis
    unfolding scenario_header_pg scenario_header_sqlite by simp
qed

section \<open>Properties of schema creation\<close>

lemma is_reserved_lower_replace:
  "is_reserved (replace_space (py_lower x)) \<longleftrightarrow> replace_space (py_lower x) \<in> set RESERVED_WORDS"
  by (simp add: is_reserved_iff py_lower_replace_space py_lower_idem)

lemma py_lower_char_dquote: "py_lower_char c = CHR 0x22 \<longleftrightarrow> c = CHR 0x22"
  unfolding py_lower_char_def by (simp split: if_splits)

lemma py_lower_char_nul: "py_lower_char c = CHR 0x00 \<longleftrightarrow> c = CHR 0x00"
  unfolding py_lower_char_def by (simp split: if_splits)

lemma lower_replace_chars:
  "replace_space (py_lower x)
   = map (\<lambda>c. if c = CHR '' '' then CHR ''_'' else py_lower_char c) x"
  by (simp add: replace_space_def py_lower_def py_lower_char_space)

lemma image_fixed_char:
  assumes "\<And>c. g c = q \<longleftrightarrow> c = q"
  shows "q \<in> set (map g x) \<longleftrightarrow> q \<in> set x"
proof
  assume "q \<in> set (map g x)"
  then obtain c where "c \<in> set x" and "g c = q" by auto
  with assms show "q \<in> set x" by simp
next
  assume "q \<in> set x"
  moreover from assms have "g q = q" by simp
  ultimately show "q \<in> set (map g x)" by force
qed

lemma lower_replace_dquote:
  "CHR 0x22 \<in> set (replace_space (py_lower x)) \<longleftrightarrow> CHR 0x22 \<in> set x"
  unfolding lower_replace_chars
  by (rule image_fixed_char) (simp add: py_lower_char_dquote)

lemma lower_replace_nul:
  "CHR 0x00 \<in> set (replace_space (py_lower x)) \<longleftrightarrow> CHR 0x00 \<in> set x"
  unfolding lower_replace_chars
  by (rule image_fixed_char) (simp add: py_lower_char_nul)

lemma safe_name_dquote: "CHR 0x22 \<in> set (sqlite_safe_col_name x) \<longleftrightarrow> CHR 0x22 \<in> set x"
  by (simp add: sqlite_via_lower_replace lower_replace_dquote)

lemma safe_name_nul: "CHR 0x00 \<in> set (sqlite_safe_col_name x) \<longleftrightarrow> CHR 0x00 \<in> set x"
  by (simp add: sqlite_via_lower_replace lower_replace_nul)

lemma py_lower_safe_name: "py_lower (sqlite_safe_col_name x) = sqlite_safe_col_name x"
  by (simp add: sqlite_via_lower_replace py_lower_append suffix_col_lower
        py_lower_replace_space py_lower_idem)

lemma py_lower_id: "py_lower ''id'' = ''id''"
  by code_simp

lemma unquote_plain: "CHR 0x22 \<notin> set n \<Longrightarrow> unquote_ident n = Some n"
  by (induction n rule: unquote_ident.induct) auto

lemma those_map_Some: "(\<forall>n \<in> set ns. f n = Some n) \<Longrightarrow> those (map f ns) = Some ns"
  by (induction ns) auto

lemma those_length: "those xs = Some ys \<Longrightarrow> length ys = length xs"
  by (induction xs arbitrary: ys) (auto split: option.splits)

lemma engine_create_plain:
  assumes "\<forall>n \<in> set names. CHR 0x22 \<notin> set n \<and> CHR 0x00 \<notin> set n"
    and "distinct (map py_lower (''id'' # names))" and "length names < 2000"
  shows "engine_create_columns names = Inr names"
proof -
  from assms(1) have "those (map unquote_ident names) = Some names"
    by (intro those_map_Some) (simp add: unquote_plain)
  with assms show ?thesis
    by (simp add: engine_create_columns_def)
qed

lemma engine_create_Inr:
  assumes "engine_create_columns names = Inr cols"
  shows "those (map unquote_ident names) = Some cols \<and> length cols = length names
         \<and> length names < 2000 \<and> (\<forall>n \<in> set names. CHR 0x00 \<notin> set n)
         \<and> distinct (map py_lower (''id'' # cols))"
proof -
  from assms have t: "those (map unquote_ident names) = Some cols"
    and rest: "length cols < 2000 \<and> (\<forall>n \<in> set names. CHR 0x00 \<notin> set n)
               \<and> distinct (map py_lower (''id'' # cols))"
    by (auto simp: engine_create_columns_def split: if_splits option.splits)
  from those_length [OF t] have "length cols = length names" by simp
  with t rest show ?thesis by simp
qed

lemma header_names_plain:
  assumes "\<forall>n \<in> set header. CHR 0x22 \<notin> set n \<and> CHR 0x00 \<notin> set n"
    and "distinct (''id'' # map sqlite_safe_col_name header)" and "length header < 2000"
  shows "engine_create_columns (map sqlite_safe_col_name header)
         = Inr (map sqlite_safe_col_name header)"
proof (rule engine_create_plain)
  from assms(1)
  show "\<forall>n \<in> set (map sqlite_safe_col_name header). CHR 0x22 \<notin> set n \<and> CHR 0x00 \<notin> set n"
    by (simp add: safe_name_dquote safe_name_nul)
  have eq: "map py_lower (''id'' # map sqlite_safe_col_name header)
          = ''id'' # map sqlite_safe_col_name header"
    by (simp add: py_lower_id py_lower_safe_name)
  show "distinct (map py_lower (''id'' # map sqlite_safe_col_name header))"
    unfolding eq by (rule assms(2))
  from assms(3) show "length (map sqlite_safe_col_name header) < 2000" by simp
qed

lemma create_table_plain:
  assumes "\<forall>n \<in> set header. CHR 0x22 \<notin> set n \<and> CHR 0x00 \<notin> set n"
    and "distinct (''id'' # map sqlite_safe_col_name header)" and "length header < 2000"
  shows "create_table conn (header # data)
         = Inr ((), conn_commit ((execute_drop conn)
              \<lparr>tbl_columns := Some (map sqlite_safe_col_name header), tbl_rows := [],
               executed := executed (execute_drop conn) @ [CreateTable (sqlite_create_sql header)]\<rparr>))"
  using header_names_plain [OF assms]
  by (simp add: create_table_def next_record_def execute_create_def Let_def execute_drop_def)

lemma create_table_Inr:
  assumes "create_table conn csv_file = Inr ((), conn1)"
  shows "\<exists>header data cols. csv_file = header # data
           \<and> engine_create_columns (map sqlite_safe_col_name header) = Inr cols
           \<and> tbl_columns conn1 = Some cols \<and> tbl_rows conn1 = []
           \<and> \<not> in_transaction conn1"
proof (cases csv_file)
  case Nil
  with assms show ?thesis by (simp add: create_table_def next_record_def Let_def)
next
  case (Cons header data)
  with assms obtain cols where
    "engine_create_columns (map sqlite_safe_col_name header) = Inr cols"
    and "conn1 = conn_commit ((execute_drop conn)\<lparr>tbl_columns := Some cols, tbl_rows := [],
           executed := executed (execute_drop conn) @ [CreateTable (sqlite_create_sql header)]\<rparr>)"
    by (auto simp: create_table_def next_record_def Let_def execute_create_def execute_drop_def
          split: sum.splits if_splits)
  with Cons show ?thesis by (simp add: conn_commit_def)
qed

lemma example_names_select:
  "sqlite_safe_col_name ''Select'' = ''select_col''
   \<and> sqlite_safe_col_name ''select_col'' = ''select_col''
   \<and> sqlite_safe_col_name ''Name'' = ''name''"
proof -
  have "replace_space (py_lower ''Select'') = ''select''"
    and "replace_space (py_lower ''select_col'') = ''select_col''"
    and "replace_space (py_lower ''Name'') = ''name''"
    by code_simp+
  then show ?thesis
    by (simp add: sqlite_via_lower_replace RESERVED_WORDS_def)
qed

lemma lower_example_names:
  "py_lower ''id'' = ''id'' \<and> py_lower ''name'' = ''name''
   \<and> py_lower ''select_col'' = ''select_col'' \<and> py_lower ''web_site'' = ''web_site''
   \<and> py_lower ''website'' = ''website''"
  by code_simp

text \<open>
  C4, as the code has it. In the SQLite script a header name whose lower-cased,
  space-replaced form is in \<open>RESERVED_WORDS\<close> is stored under that form followed by
  \<open>_col\<close>; the stored name is not reserved, and the \<open>CREATE TABLE\<close> statement declares
  it in double quotes as a \<open>TEXT\<close> column. Schema creation then returns without error,
  the columns of the table being exactly the stored names, when no header name holds
  a double quote or a NUL character, the stored names differ from each other and from
  \<open>id\<close>, and there are fewer than 2000 of them.
\<close>

theorem sqlite_reserved_name_gets_suffix:
  assumes "col_name \<in> set header" and "is_reserved (replace_space (py_lower col_name))"
  shows "sqlite_safe_col_name col_name = replace_space (py_lower col_name) @ ''_col''
         \<and> \<not> is_reserved (sqlite_safe_col_name col_name)
         \<and> dquote @ sqlite_safe_col_name col_name @ dquote @ '' TEXT''
               \<in> set (sqlite_column_defs header)
         \<and> ((\<forall>n \<in> set header. CHR 0x22 \<notin> set n \<and> CHR 0x00 \<notin> set n)
              \<and> distinct (''id'' # map sqlite_safe_col_name header)
              \<and> length header < 2000 \<longrightarrow>
              (\<exists>conn1. create_table conn (header # data) = Inr ((), conn1)
                  \<and> tbl_columns conn1 = Some (map sqlite_safe_col_name header)
                  \<and> tbl_rows conn1 = []
                  \<and> CreateTable (sqlite_create_sql header) \<in> set (executed conn1)))"
proof -
  from assms(2)
  have a: "sqlite_safe_col_name col_name = replace_space (py_lower col_name) @ ''_col''"
    by (simp add: sqlite_safe_col_name_def Let_def)
  then have b: "\<not> is_reserved (sqlite_safe_col_name col_name)"
    by (simp add: suffixed_not_reserved)
  from assms(1)
  have c: "dquote @ sqlite_safe_col_name col_name @ dquote @ '' TEXT''
             \<in> set (sqlite_column_defs header)"
    by (simp add: sqlite_column_defs_def)
  have d: "(\<forall>n \<in> set header. CHR 0x22 \<notin> set n \<and> CHR 0x00 \<notin> set n)
              \<and> distinct (''id'' # map sqlite_safe_col_name header)
              \<and> length header < 2000 \<longrightarrow>
              (\<exists>conn1. create_table conn (header # data) = Inr ((), conn1)
                  \<and> tbl_columns conn1 = Some (map sqlite_safe_col_name header)
                  \<and> tbl_rows conn1 = []
                  \<and> CreateTable (sqlite_create_sql header) \<in> set (executed conn1))"
  proof
    assume h: "(\<forall>n \<in> set header. CHR 0x22 \<notin> set n \<and> CHR 0x00 \<notin> set n)
              \<and> distinct (''id'' # map sqlite_safe_col_name header)
              \<and> length header < 2000"
    then have "create_table conn (header # data)
         = Inr ((), conn_commit ((execute_drop conn)
              \<lparr>tbl_columns := Some (map sqlite_safe_col_name header), tbl_rows := [],
               executed := executed (execute_drop conn) @ [CreateTable (sqlite_create_sql header)]\<rparr>))"
      by (intro create_table_plain) simp_all
    then show "\<exists>conn1. create_table conn (header # data) = Inr ((), conn1)
                  \<and> tbl_columns conn1 = Some (map sqlite_safe_col_name header)
                  \<and> tbl_rows conn1 = []
                  \<and> CreateTable (sqlite_create_sql header) \<in> set (executed conn1)"
      by (simp add: conn_commit_def)
  qed
  from a b c d show ?thesis by blast
qed

theorem sqlite_reserved_name_gets_suffix_witness:
  "sqlite_safe_col_name ''Select'' = ''select_col''
   \<and> \<not> is_reserved (sqlite_safe_col_name ''Select'')
   \<and> dquote @ ''select_col'' @ dquote @ '' TEXT'' \<in> set (sqlite_column_defs [''Name'', ''Select''])
   \<and> (\<exists>conn1. create_table
         \<lparr>tbl_columns = Some [''old''], tbl_rows = [[Some ''x'']], committed_rows = [],
          in_transaction = False, executed = []\<rparr> [[''Name'', ''Select'']] = Inr ((), conn1)
        \<and> tbl_columns conn1 = Some [''name'', ''select_col''] \<and> tbl_rows conn1 = [])"
proof -
  have a: "replace_space (py_lower ''Select'') = ''select''"
    by code_simp
  have b: "is_reserved (replace_space (py_lower ''Select''))"
    by (subst is_reserved_lower_replace) (simp add: a RESERVED_WORDS_def)
  have c: "''Select'' \<in> set [''Name'', ''Select'']" by simp
  have d: "(\<forall>n \<in> set [''Name'', ''Select'']. CHR 0x22 \<notin> set n \<and> CHR 0x00 \<notin> set n)
      \<and> distinct (''id'' # map sqlite_safe_col_name [''Name'', ''Select''])
      \<and> length [''Name'', ''Select''] < 2000"
    by (simp add: example_names_select)
  from sqlite_reserved_name_gets_suffix [OF c b, of
      "\<lparr>tbl_columns = Some [''old''], tbl_rows = [[Some ''x'']], committed_rows = [],
        in_transaction = False, executed = []\<rparr>" "[]"] d
  show ?thesis by (auto simp: example_names_select)
qed

text \<open>
  C4 as the specification states it fails. The PostgreSQL script has no
  reserved-word list: the header name \<open>select\<close> is stored as \<open>select\<close>, without the
  suffix, and declared bare. In the SQLite script the suffix is there, but schema
  creation fails all the same when the suffixed name meets a column of that very name
  (\<open>Select\<close> beside \<open>select_col\<close>), or when another name of the header holds a double
  quote, which the script does not escape, or a NUL character.
\<close>

theorem reserved_name_counterexample:
  "pg_safe_col_name ''select'' = ''select''
   \<and> \<not> suffix ''_col'' (pg_safe_col_name ''select'')
   \<and> pg_create_sql [''select'']
        = ''CREATE TABLE utenti (id SERIAL PRIMARY KEY, select VARCHAR(255));''
   \<and> map sqlite_safe_col_name [''Select'', ''select_col''] = [''select_col'', ''select_col'']
   \<and> create_table
        \<lparr>tbl_columns = None, tbl_rows = [], committed_rows = [], in_transaction = False,
         executed = []\<rparr> [[''Select'', ''select_col'']]
      = Inl (OperationalError,
          \<lparr>tbl_columns = None, tbl_rows = [], committed_rows = [], in_transaction = False,
           executed = [DropTableIfExists]\<rparr>)
   \<and> sqlite_main
        \<lparr>tbl_columns = None, tbl_rows = [], committed_rows = [], in_transaction = False,
         executed = []\<rparr> [[''Select'', [CHR ''a'', CHR 0x22, CHR ''b'']]]
      = Inl OperationalError
   \<and> isl (sqlite_main
        \<lparr>tbl_columns = None, tbl_rows = [], committed_rows = [], in_transaction = False,
         executed = []\<rparr> [[''Select'', [CHR ''a'', CHR 0x00]]])"
proof -
  have a: "pg_safe_col_name ''select'' = ''select''"
    by code_simp
  have b: "\<not> suffix ''_col'' ''select''"
    by code_simp
  have c: "pg_create_sql [''select'']
        = ''CREATE TABLE utenti (id SERIAL PRIMARY KEY, select VARCHAR(255));''"
    unfolding pg_create_sql_def pg_column_defs_def by (simp add: a)
  have q: "sqlite_safe_col_name [CHR ''a'', CHR 0x22, CHR ''b''] = [CHR ''a'', CHR 0x22, CHR ''b'']"
  proof -
    have "replace_space (py_lower [CHR ''a'', CHR 0x22, CHR ''b'']) = [CHR ''a'', CHR 0x22, CHR ''b'']"
      by code_simp
    then show ?thesis by (simp add: sqlite_via_lower_replace RESERVED_WORDS_def)
  qed
  have d: "create_table
        \<lparr>tbl_columns = None, tbl_rows = [], committed_rows = [], in_transaction = False,
         executed = []\<rparr> [[''Select'', ''select_col'']]
      = Inl (OperationalError,
          \<lparr>tbl_columns = None, tbl_rows = [], committed_rows = [], in_transaction = False,
           executed = [DropTableIfExists]\<rparr>)"
    by (simp add: create_table_def next_record_def execute_drop_def execute_create_def
          engine_create_columns_def Let_def example_names_select lower_example_names)
  have e: "sqlite_main
        \<lparr>tbl_columns = None, tbl_rows = [], committed_rows = [], in_transaction = False,
         executed = []\<rparr> [[''Select'', [CHR ''a'', CHR 0x22, CHR ''b'']]]
      = Inl OperationalError"
    by (simp add: sqlite_main_def get_csv_column_count_def create_table_def next_record_def
          execute_drop_def execute_create_def engine_create_columns_def Let_def
          example_names_select q)
  have z: "sqlite_safe_col_name [CHR ''a'', CHR 0x00] = [CHR ''a'', CHR 0x00]"
  proof -
    have "replace_space (py_lower [CHR ''a'', CHR 0x00]) = [CHR ''a'', CHR 0x00]"
      by code_simp
    then show ?thesis by (simp add: sqlite_via_lower_replace RESERVED_WORDS_def)
  qed
  have f: "isl (sqlite_main
        \<lparr>tbl_columns = None, tbl_rows = [], committed_rows = [], in_transaction = False,
         executed = []\<rparr> [[''Select'', [CHR ''a'', CHR 0x00]]])"
    by (simp add: sqlite_main_def get_csv_column_count_def create_table_def next_record_def
          execute_drop_def execute_create_def engine_create_columns_def Let_def
          example_names_select z)
  from a b c d e f show ?thesis by (simp add: example_names_select)
qed

section \<open>Properties of the documents\<close>

lemma build_doc_skips:
  "length row \<le> k \<Longrightarrow>
     foldl (\<lambda>doc (i, col_name).
              if i < length row
              then AList.update col_name (field_value strptime col_name (row ! i)) doc
              else doc) doc (enumerate k header) = doc"
  by (induction header arbitrary: k) auto

lemma build_doc_from:
  "foldl (\<lambda>doc (i, col_name).
            if i < length (pre @ rs)
            then AList.update col_name (field_value strptime col_name ((pre @ rs) ! i)) doc
            else doc) doc (enumerate (length pre) header)
   = foldl (\<lambda>doc (col_name, v). AList.update col_name (field_value strptime col_name v) doc)
       doc (zip header rs)"
proof (induction header arbitrary: pre rs doc)
  case Nil
  then show ?case by simp
next
  case (Cons h hs)
  show ?case
  proof (cases rs)
    case Nil
    have "foldl (\<lambda>doc (i, col_name).
            if i < length (pre @ [])
            then AList.update col_name (field_value strptime col_name ((pre @ []) ! i)) doc
            else doc) doc (enumerate (length pre) (h # hs)) = doc"
      by (rule build_doc_skips) simp
    then show ?thesis unfolding Nil by simp
  next
    case (Cons r rs1)
    from Cons.IH [of "pre @ [r]" rs1 "AList.update h (field_value strptime h r) doc"]
    show ?thesis unfolding Cons by (simp cong: if_cong)
  qed
qed

lemma build_doc_zip:
  "build_doc strptime header row
   = foldl (\<lambda>doc (col_name, v). AList.update col_name (field_value strptime col_name v) doc)
       [] (zip header row)"
  using build_doc_from [of "[]" row strptime "[]" header]
  by (simp add: build_doc_def cong: if_cong)

lemma fold_update_keys:
  "fst ` set (foldl (\<lambda>doc (col_name, v). AList.update col_name (g col_name v) doc) doc ps)
   = fst ` set doc \<union> fst ` set ps"
proof (induction ps arbitrary: doc)
  case Nil
  then show ?case by simp
next
  case (Cons p ps)
  obtain c v where p: "p = (c, v)" by (cases p)
  have "set (map fst (AList.update c (g c v) doc)) = insert c (set (map fst doc))"
    by (auto simp: AList.update_keys)
  then have "fst ` set (AList.update c (g c v) doc) = insert c (fst ` set doc)"
    by simp
  with Cons.IH [of "AList.update c (g c v) doc"] p show ?case by auto
qed

lemma fold_update_distinct:
  "distinct (map fst doc) \<Longrightarrow>
   distinct (map fst
     (foldl (\<lambda>doc (col_name, v). AList.update col_name (g col_name v) doc) doc ps))"
proof (induction ps arbitrary: doc)
  case Nil
  then show ?case by simp
next
  case (Cons p ps)
  obtain c v where p: "p = (c, v)" by (cases p)
  from Cons.prems have "distinct (map fst (AList.update c (g c v) doc))"
    by (rule AList.distinct_update)
  from Cons.IH [OF this] p show ?case by simp
qed

lemma fold_update_other:
  "k \<notin> fst ` set ps \<Longrightarrow>
   map_of (foldl (\<lambda>doc (col_name, v). AList.update col_name (g col_name v) doc) doc ps) k
   = map_of doc k"
proof (induction ps arbitrary: doc)
  case Nil
  then show ?case by simp
next
  case (Cons p ps)
  obtain c v where p: "p = (c, v)" by (cases p)
  from Cons.prems p have "k \<noteq> c" and "k \<notin> fst ` set ps" by auto
  with Cons.IH [of "AList.update c (g c v) doc"] p show ?case
    by (simp add: AList.update_conv')
qed

lemma fold_update_value:
  "distinct (map fst ps) \<Longrightarrow> (k, v) \<in> set ps \<Longrightarrow>
   map_of (foldl (\<lambda>doc (col_name, v). AList.update col_name (g col_name v) doc) doc ps) k
   = Some (g k v)"
proof (induction ps arbitrary: doc)
  case Nil
  then show ?case by simp
next
  case (Cons p ps)
  obtain c w where p: "p = (c, w)" by (cases p)
  show ?case
  proof (cases "(k, v) = (c, w)")
    case True
    with Cons.prems(1) p have "k \<notin> fst ` set ps" by auto
    from fold_update_other [OF this, of g "AList.update c (g c w) doc"] p True
    show ?thesis by (simp add: AList.update_conv')
  next
    case False
    with Cons.prems p have "distinct (map fst ps)" and "(k, v) \<in> set ps" by auto
    from Cons.IH [OF this, of "AList.update c (g c w) doc"] p show ?thesis by simp
  qed
qed

lemma zip_keys: "map fst (zip xs ys) = take (length ys) xs"
  by (simp add: map_fst_zip_take min_def)

lemma build_doc_keys:
  "fst ` set (build_doc strptime header row) = set (take (length row) header)"
proof -
  have "set (map fst (zip header row)) = set (take (length row) header)"
    by (simp only: zip_keys)
  then have "fst ` set (zip header row) = set (take (length row) header)"
    by simp
  then show ?thesis
    by (simp add: build_doc_zip fold_update_keys)
qed

lemma build_doc_distinct: "distinct (map fst (build_doc strptime header row))"
  by (simp add: build_doc_zip fold_update_distinct)

lemma build_doc_value:
  assumes "distinct header" and "i < length header" and "i < length row"
  shows "map_of (build_doc strptime header row) (header ! i)
         = Some (field_value strptime (header ! i) (row ! i))"
proof -
  have "map fst (zip header row) = take (length row) header"
    by (rule zip_keys)
  with assms(1) have d: "distinct (map fst (zip header row))"
    by (simp add: distinct_take)
  from assms(2,3) have "(header ! i, row ! i) \<in> set (zip header row)"
    by (auto simp: set_zip)
  from fold_update_value [OF d this] show ?thesis
    by (simp add: build_doc_zip)
qed

lemma build_doc_absent:
  "map_of (build_doc strptime header row) k = None \<longleftrightarrow> k \<notin> set (take (length row) header)"
  using build_doc_keys [of strptime header row]
  by (simp add: map_of_eq_None_iff)

section \<open>Properties of the two loaders\<close>

lemma execute_insert_Inr:
  "execute_insert insert_sql names row conn = Inr conn1 \<Longrightarrow>
     length (tbl_rows conn1) = Suc (length (tbl_rows conn))
     \<and> tbl_columns conn1 = tbl_columns conn \<and> length row = length names"
  by (auto simp: execute_insert_def split: option.splits if_splits)

lemma execute_begin_commit:
  "execute_begin (conn_commit conn) =
     Inr ((conn_commit conn)\<lparr>in_transaction := True,
            executed := executed conn @ [BeginTransaction]\<rparr>)"
  by (simp add: execute_begin_def conn_commit_def)

lemma insert_rows_Inr:
  "insert_rows insert_sql names conn total_rows rows = Inr (n, conn1) \<Longrightarrow>
     n = total_rows + length rows
     \<and> length (tbl_rows conn1) = length (tbl_rows conn) + length rows
     \<and> tbl_columns conn1 = tbl_columns conn
     \<and> (\<forall>row \<in> set rows. length row = length names)"
proof (induction rows arbitrary: conn total_rows)
  case Nil
  then show ?case by simp
next
  case (Cons row rest)
  from Cons.prems obtain c1 where c1: "execute_insert insert_sql names row conn = Inr c1"
    by (auto split: sum.splits)
  note ins = execute_insert_Inr [OF c1]
  show ?case
  proof (cases "Suc total_rows mod 1000 = 0")
    case True
    let ?c2 = "(conn_commit c1)\<lparr>in_transaction := True,
                  executed := executed c1 @ [BeginTransaction]\<rparr>"
    from Cons.prems c1 True
    have "insert_rows insert_sql names ?c2 (Suc total_rows) rest = Inr (n, conn1)"
      by (simp add: execute_begin_commit)
    from Cons.IH [OF this] ins show ?thesis
      by (simp add: conn_commit_def)
  next
    case False
    from Cons.prems c1 False
    have "insert_rows insert_sql names c1 (Suc total_rows) rest = Inr (n, conn1)"
      by simp
    from Cons.IH [OF this] ins show ?thesis by simp
  qed
qed

lemma execute_insert_succeeds:
  assumes "tbl_columns conn = Some cols" and "those (map unquote_ident names) = Some idents"
    and "set (map py_lower idents) \<subseteq> set (map py_lower cols)"
    and "names \<noteq> []" and "length names \<le> 32766"
    and "\<forall>n \<in> set names. CHR 0x00 \<notin> set n" and "length row = length names"
  shows "\<exists>conn1. execute_insert insert_sql names row conn = Inr conn1"
  using assms by (simp add: execute_insert_def)

lemma insert_rows_succeeds:
  assumes "tbl_columns conn = Some cols" and "those (map unquote_ident names) = Some idents"
    and "set (map py_lower idents) \<subseteq> set (map py_lower cols)"
    and "names \<noteq> []" and "length names \<le> 32766"
    and "\<forall>n \<in> set names. CHR 0x00 \<notin> set n"
    and "\<forall>row \<in> set rows. length row = length names"
  shows "\<exists>conn1. insert_rows insert_sql names conn total_rows rows
                   = Inr (total_rows + length rows, conn1)"
  using assms(1,7)
proof (induction rows arbitrary: conn total_rows)
  case Nil
  then show ?case by simp
next
  case (Cons row rest)
  from Cons.prems(2) have len: "length row = length names" by simp
  from execute_insert_succeeds [OF Cons.prems(1) assms(2,3,4,5,6) len]
  obtain c1 where c1: "execute_insert insert_sql names row conn = Inr c1"
    by blast
  from execute_insert_Inr [OF c1] Cons.prems(1)
  have cols1: "tbl_columns c1 = Some cols" by simp
  from Cons.prems(2) have rest: "\<forall>row \<in> set rest. length row = length names" by simp
  show ?case
  proof (cases "Suc total_rows mod 1000 = 0")
    case True
    let ?c2 = "(conn_commit c1)\<lparr>in_transaction := True,
                  executed := executed c1 @ [BeginTransaction]\<rparr>"
    from cols1 have "tbl_columns ?c2 = Some cols" by (simp add: conn_commit_def)
    from Cons.IH [OF this rest, of "Suc total_rows"] c1 True
    show ?thesis by (simp add: execute_begin_commit)
  next
    case False
    from Cons.IH [OF cols1 rest, of "Suc total_rows"] c1 False
    show ?thesis by simp
  qed
qed

lemma load_csv_to_database_Inr:
  assumes "load_csv_to_database conn csv_file = Inr (n, conn1)"
  shows "\<exists>header data. csv_file = header # data \<and> n = length data
           \<and> length (tbl_rows conn1) = length (tbl_rows conn) + length data
           \<and> committed_rows conn1 = tbl_rows conn1
           \<and> tbl_columns conn1 = tbl_columns conn
           \<and> (\<forall>row \<in> set data. length row = length header)"
proof (cases csv_file)
  case Nil
  with assms show ?thesis by (simp add: load_csv_to_database_def next_record_def)
next
  case (Cons header data)
  from assms Cons obtain c1 where c1: "execute_begin conn = Inr c1"
    by (auto simp: load_csv_to_database_def next_record_def split: sum.splits)
  then have rows1: "tbl_rows c1 = tbl_rows conn" "tbl_columns c1 = tbl_columns conn"
    by (auto simp: execute_begin_def split: if_splits)
  from assms Cons c1 obtain c2 where
    c2: "insert_rows (sqlite_insert_sql header) (map sqlite_safe_col_name header) c1 0 data
           = Inr (n, c2)" and conn1: "conn1 = conn_commit c2"
    by (auto simp: load_csv_to_database_def next_record_def split: sum.splits)
  from insert_rows_Inr [OF c2] rows1 conn1 Cons show ?thesis
    by (simp add: conn_commit_def)
qed

lemma load_after_create_succeeds:
  assumes "create_table before (header # data) = Inr ((), conn)" and "header \<noteq> []"
    and "\<forall>row \<in> set data. length row = length header"
  shows "\<exists>conn1. load_csv_to_database conn (header # data) = Inr (length data, conn1)"
proof -
  let ?names = "map sqlite_safe_col_name header"
  from create_table_Inr [OF assms(1)] obtain cols where
    e: "engine_create_columns ?names = Inr cols" and c: "tbl_columns conn = Some cols"
    and t: "\<not> in_transaction conn"
    by auto
  note r = engine_create_Inr [OF e]
  let ?c1 = "conn\<lparr>in_transaction := True, executed := executed conn @ [BeginTransaction]\<rparr>"
  from t have b: "execute_begin conn = Inr ?c1" by (simp add: execute_begin_def)
  from c have c1: "tbl_columns ?c1 = Some cols" by simp
  from r have i: "those (map unquote_ident ?names) = Some cols" by simp
  have s: "set (map py_lower cols) \<subseteq> set (map py_lower cols)" by simp
  from assms(2) have ne: "?names \<noteq> []" by simp
  from r have le: "length ?names \<le> 32766" by simp
  from r have nul: "\<forall>n \<in> set ?names. CHR 0x00 \<notin> set n" by simp
  from assms(3) have ar: "\<forall>row \<in> set data. length row = length ?names" by simp
  from insert_rows_succeeds [OF c1 i s ne le nul ar, of "sqlite_insert_sql header" 0]
  obtain c2 where "insert_rows (sqlite_insert_sql header) ?names ?c1 0 data
                     = Inr (length data, c2)"
    by auto
  with b show ?thesis
    by (simp add: load_csv_to_database_def next_record_def)
qed

text \<open>
  The documents an insert stores, with the identifiers counted from \<open>oid\<close>.
\<close>

lemma stored_append:
  "map (\<lambda>(i, doc). store_document i doc) (enumerate oid (xs @ ys))
   = map (\<lambda>(i, doc). store_document i doc) (enumerate oid xs)
     @ map (\<lambda>(i, doc). store_document i doc) (enumerate (oid + length xs) ys)"
  by (simp add: enumerate_append_eq)

lemma insert_ordered_taken:
  "insert_ordered coll oid docs = (coll1, True) \<Longrightarrow>
     coll1 = coll @ map (\<lambda>(i, doc). store_document i doc) (enumerate oid docs)"
proof (induction docs arbitrary: coll oid)
  case Nil
  then show ?case by simp
next
  case (Cons doc docs)
  from Cons.prems
  have "insert_ordered (coll @ [store_document oid doc]) (Suc oid) docs = (coll1, True)"
    by (auto split: option.splits if_splits)
  from Cons.IH [OF this] show ?case by simp
qed

lemma insert_ordered_own_ids:
  "\<forall>doc \<in> set docs. map_of doc ''_id'' = None \<Longrightarrow>
     insert_ordered coll oid docs
     = (coll @ map (\<lambda>(i, doc). store_document i doc) (enumerate oid docs), True)"
proof (induction docs arbitrary: coll oid)
  case Nil
  then show ?case by simp
next
  case (Cons doc docs)
  from Cons.prems have "\<forall>doc \<in> set docs. map_of doc ''_id'' = None"
    and "map_of doc ''_id'' = None" by simp_all
  with Cons.IH [of "coll @ [store_document oid doc]" "Suc oid"] show ?case by simp
qed

lemma insert_many_Inr:
  assumes "insert_many db docs = Inr db1"
  shows "utenti db1 = utenti db @ map (\<lambda>(i, doc). store_document i doc)
                                     (enumerate (next_oid db) docs)
         \<and> next_oid db1 = next_oid db + length docs"
proof -
  obtain coll ok where io: "insert_ordered (utenti db) (next_oid db) docs = (coll, ok)"
    by (cases "insert_ordered (utenti db) (next_oid db) docs") auto
  with assms have ok: "ok" and db1: "db1 = db\<lparr>utenti := coll,
      next_oid := next_oid db + length docs, issued := issued db @ [InsertMany (length docs)]\<rparr>"
    by (auto simp: insert_many_def Let_def split: if_splits)
  from io ok have "coll = utenti db @ map (\<lambda>(i, doc). store_document i doc)
                                     (enumerate (next_oid db) docs)"
    by (intro insert_ordered_taken) simp
  with db1 show ?thesis by simp
qed

lemma insert_many_succeeds:
  assumes "docs \<noteq> []"
    and "\<forall>doc \<in> set docs. \<forall>k \<in> fst ` set doc. k \<noteq> ''_id'' \<and> CHR 0x00 \<notin> set k"
  shows "\<exists>db1. insert_many db docs = Inr db1"
proof -
  have "\<forall>doc \<in> set docs. map_of doc ''_id'' = None"
  proof
    fix doc assume "doc \<in> set docs"
    with assms(2) have "\<forall>k \<in> fst ` set doc. k \<noteq> ''_id''" by blast
    then have "''_id'' \<notin> fst ` set doc" by blast
    then show "map_of doc ''_id'' = None" by (simp add: map_of_eq_None_iff)
  qed
  from insert_ordered_own_ids [OF this, of "utenti db" "next_oid db"] assms
  show ?thesis
    by (auto simp: insert_many_def Let_def)
qed

lemma load_rows_Inr:
  "load_rows strptime header db total_rows documents rows = Inr (n, documents1, db1) \<Longrightarrow>
     n = total_rows + length rows
     \<and> utenti db1 @ map (\<lambda>(i, doc). store_document i doc) (enumerate (next_oid db1) documents1)
       = utenti db @ map (\<lambda>(i, doc). store_document i doc)
           (enumerate (next_oid db) (documents @ map (build_doc strptime header) rows))"
proof (induction rows arbitrary: db total_rows documents)
  case Nil
  then show ?case by simp
next
  case (Cons row rest)
  let ?docs = "documents @ [build_doc strptime header row]"
  show ?case
  proof (cases "1000 \<le> Suc (length documents)")
    case True
    with Cons.prems obtain db2 where i: "insert_many db ?docs = Inr db2"
      and l: "load_rows strptime header db2 (Suc total_rows) [] rest = Inr (n, documents1, db1)"
      by (auto simp: Let_def split: sum.splits)
    note im = insert_many_Inr [OF i]
    from Cons.IH [OF l] im show ?thesis
      by (simp add: stored_append)
  next
    case False
    with Cons.prems
    have "load_rows strptime header db (Suc total_rows) ?docs rest = Inr (n, documents1, db1)"
      by (simp add: Let_def)
    from Cons.IH [OF this] show ?thesis by simp
  qed
qed

lemma load_rows_succeeds:
  assumes "''_id'' \<notin> set header" and "\<forall>h \<in> set header. CHR 0x00 \<notin> set h"
  shows "\<forall>doc \<in> set documents. fst ` set doc \<subseteq> set header \<Longrightarrow>
     \<exists>documents1 db1. load_rows strptime header db total_rows documents rows
        = Inr (total_rows + length rows, documents1, db1)
        \<and> (\<forall>doc \<in> set documents1. fst ` set doc \<subseteq> set header)"
proof (induction rows arbitrary: db total_rows documents)
  case Nil
  then show ?case by simp
next
  case (Cons row rest)
  let ?docs = "documents @ [build_doc strptime header row]"
  have "fst ` set (build_doc strptime header row) \<subseteq> set header"
    by (simp add: build_doc_keys set_take_subset)
  with Cons.prems have keys: "\<forall>doc \<in> set ?docs. fst ` set doc \<subseteq> set header"
    by simp
  show ?case
  proof (cases "1000 \<le> Suc (length documents)")
    case True
    from keys assms
    have "\<forall>doc \<in> set ?docs. \<forall>k \<in> fst ` set doc. k \<noteq> ''_id'' \<and> CHR 0x00 \<notin> set k"
      by blast
    then obtain db2 where i: "insert_many db ?docs = Inr db2"
      using insert_many_succeeds [of ?docs db] by auto
    have "\<forall>doc \<in> set ([]::document list). fst ` set doc \<subseteq> set header" by simp
    from Cons.IH [OF this, of db2 "Suc total_rows"] i True show ?thesis
      by (simp add: Let_def)
  next
    case False
    from Cons.IH [OF keys, of db "Suc total_rows"] False show ?thesis
      by (simp add: Let_def)
  qed
qed

lemma load_csv_to_mongodb_Inr:
  assumes "load_csv_to_mongodb strptime db csv_file = Inr (m, db1)"
  shows "\<exists>header data. csv_file = header # data \<and> m = length data
           \<and> utenti db1 = utenti db
               @ map (\<lambda>(i, doc). store_document i doc)
                   (enumerate (next_oid db) (map (build_doc strptime header) data))"
proof (cases csv_file)
  case Nil
  with assms show ?thesis by (simp add: load_csv_to_mongodb_def next_record_def)
next
  case (Cons header data)
  with assms obtain n documents1 db2 where
    r: "load_rows strptime header db 0 [] data = Inr (n, documents1, db2)"
    by (auto simp: load_csv_to_mongodb_def next_record_def split: sum.splits)
  from r have lr: "n = 0 + length data
     \<and> utenti db2 @ map (\<lambda>(i, doc). store_document i doc) (enumerate (next_oid db2) documents1)
       = utenti db @ map (\<lambda>(i, doc). store_document i doc)
           (enumerate (next_oid db) (([]::document list) @ map (build_doc strptime header) data))"
    by (rule load_rows_Inr)
  show ?thesis
  proof (cases "documents1 = []")
    case True
    with assms Cons r lr show ?thesis
      by (simp add: load_csv_to_mongodb_def next_record_def)
  next
    case False
    with assms Cons r obtain db3 where i: "insert_many db2 documents1 = Inr db3"
      and e: "m = n" "db1 = db3"
      by (auto simp: load_csv_to_mongodb_def next_record_def split: sum.splits)
    from insert_many_Inr [OF i] lr e Cons show ?thesis by simp
  qed
qed

lemma load_csv_to_mongodb_succeeds:
  assumes "''_id'' \<notin> set header" and "\<forall>h \<in> set header. CHR 0x00 \<notin> set h"
  shows "\<exists>db1. load_csv_to_mongodb strptime db (header # data) = Inr (length data, db1)"
proof -
  have "\<forall>doc \<in> set ([]::document list). fst ` set doc \<subseteq> set header" by simp
  from load_rows_succeeds [OF assms this, of strptime db 0 data]
  obtain documents1 db2 where
    r: "load_rows strptime header db 0 [] data = Inr (length data, documents1, db2)"
    and k: "\<forall>doc \<in> set documents1. fst ` set doc \<subseteq> set header"
    by auto
  show ?thesis
  proof (cases "documents1 = []")
    case True
    with r show ?thesis by (simp add: load_csv_to_mongodb_def next_record_def)
  next
    case False
    from k assms
    have "\<forall>doc \<in> set documents1. \<forall>k \<in> fst ` set doc. k \<noteq> ''_id'' \<and> CHR 0x00 \<notin> set k"
      by blast
    from insert_many_succeeds [OF False this, of db2] r False show ?thesis
      by (auto simp: load_csv_to_mongodb_def next_record_def)
  qed
qed

lemma stored_documents_of_rows:
  "map (\<lambda>(i, doc). store_document i doc) (enumerate oid (map f rows))
   = map (\<lambda>(i, row). store_document i (f row)) (enumerate oid rows)"
  by (induction rows arbitrary: oid) auto

text \<open>
  C1. A load that returns has read a header and returns the number of records after
  it, in the SQLite script and in the MongoDB script; the destination then holds that
  many rows or documents more than before.
\<close>

theorem load_returns_number_of_data_rows:
  "(load_csv_to_database conn csv_file = Inr (n, conn') \<longrightarrow>
      (\<exists>header data. csv_file = header # data \<and> n = length data
          \<and> length (tbl_rows conn') = length (tbl_rows conn) + length data))
   \<and> (load_csv_to_mongodb strptime db csv_file = Inr (m, db') \<longrightarrow>
      (\<exists>header data. csv_file = header # data \<and> m = length data
          \<and> length (utenti db') = length (utenti db) + length data))"
proof -
  have a: "load_csv_to_database conn csv_file = Inr (n, conn') \<longrightarrow>
      (\<exists>header data. csv_file = header # data \<and> n = length data
          \<and> length (tbl_rows conn') = length (tbl_rows conn) + length data)"
    using load_csv_to_database_Inr [of conn csv_file n conn'] by blast
  have b: "load_csv_to_mongodb strptime db csv_file = Inr (m, db') \<longrightarrow>
      (\<exists>header data. csv_file = header # data \<and> m = length data
          \<and> length (utenti db') = length (utenti db) + length data)"
  proof
    assume "load_csv_to_mongodb strptime db csv_file = Inr (m, db')"
    from load_csv_to_mongodb_Inr [OF this] obtain header data where
      "csv_file = header # data" and "m = length data"
      and "utenti db' = utenti db
               @ map (\<lambda>(i, doc). store_document i doc)
                   (enumerate (next_oid db) (map (build_doc strptime header) data))"
      by blast
    then show "\<exists>header data. csv_file = header # data \<and> m = length data
          \<and> length (utenti db') = length (utenti db) + length data"
      by simp
  qed
  from a b show ?thesis by blast
qed

lemma example_header_names:
  "sqlite_safe_col_name ''Name'' = ''name'' \<and> sqlite_safe_col_name ''Web Site'' = ''web_site''"
proof -
  have "replace_space (py_lower ''Name'') = ''name''"
    and "replace_space (py_lower ''Web Site'') = ''web_site''"
    by code_simp+
  then show ?thesis
    by (simp add: sqlite_via_lower_replace RESERVED_WORDS_def)
qed

lemma example_create_table:
  "create_table
     \<lparr>tbl_columns = None, tbl_rows = [], committed_rows = [], in_transaction = False,
      executed = []\<rparr> ([''Name'', ''Web Site''] # data)
   = Inr ((), \<lparr>tbl_columns = Some [''name'', ''web_site''], tbl_rows = [], committed_rows = [],
              in_transaction = False,
              executed = [DropTableIfExists,
                          CreateTable (sqlite_create_sql [''Name'', ''Web Site''])]\<rparr>)"
proof -
  have "(\<forall>n \<in> set [''Name'', ''Web Site'']. CHR 0x22 \<notin> set n \<and> CHR 0x00 \<notin> set n)"
    and "distinct (''id'' # map sqlite_safe_col_name [''Name'', ''Web Site''])"
    and "length [''Name'', ''Web Site''] < 2000"
    by (simp_all add: example_header_names)
  from create_table_plain [OF this] show ?thesis
    by (simp add: conn_commit_def execute_drop_def example_header_names)
qed

theorem load_returns_number_of_data_rows_witness:
  "(\<exists>conn1. load_csv_to_database
        \<lparr>tbl_columns = Some [''name'', ''web_site''], tbl_rows = [], committed_rows = [],
         in_transaction = False,
         executed = [DropTableIfExists,
                     CreateTable (sqlite_create_sql [''Name'', ''Web Site''])]\<rparr>
        [[''Name'', ''Web Site''], [''a'', ''https://x''], [''b'', ''http://y'']] = Inr (2, conn1)
      \<and> length (tbl_rows conn1) = 2)
   \<and> (\<exists>db1. load_csv_to_mongodb strptime_ymd \<lparr>utenti = [], next_oid = 0, issued = []\<rparr>
        [[''Name'', ''Web Site''], [''a'', ''https://x''], [''b'', ''http://y'']] = Inr (2, db1)
      \<and> length (utenti db1) = 2)"
proof -
  let ?before = "\<lparr>tbl_columns = None, tbl_rows = [], committed_rows = [],
                  in_transaction = False, executed = []\<rparr>"
  let ?conn = "\<lparr>tbl_columns = Some [''name'', ''web_site''], tbl_rows = [], committed_rows = [],
                in_transaction = False,
                executed = [DropTableIfExists,
                            CreateTable (sqlite_create_sql [''Name'', ''Web Site''])]\<rparr>"
  let ?db = "\<lparr>utenti = [], next_oid = 0, issued = []\<rparr>"
  let ?header = "[''Name'', ''Web Site'']"
  let ?data = "[[''a'', ''https://x''], [''b'', ''http://y'']]"
  have "create_table ?before (?header # ?data) = Inr ((), ?conn)"
    by (simp add: example_create_table)
  then have "\<exists>conn1. load_csv_to_database ?conn (?header # ?data) = Inr (length ?data, conn1)"
    by (rule load_after_create_succeeds) simp_all
  then obtain conn2 where
    c: "load_csv_to_database ?conn (?header # ?data) = Inr (length ?data, conn2)"
    by blast
  have "\<exists>db1. load_csv_to_mongodb strptime_ymd ?db (?header # ?data) = Inr (length ?data, db1)"
    by (rule load_csv_to_mongodb_succeeds) simp_all
  then obtain db2 where
    d: "load_csv_to_mongodb strptime_ymd ?db (?header # ?data) = Inr (length ?data, db2)"
    by blast
  from load_returns_number_of_data_rows
         [where conn = ?conn and csv_file = "?header # ?data" and n = "length ?data"
            and conn' = conn2 and db = ?db and strptime = strptime_ymd
            and m = "length ?data" and db' = db2] c d
  have "length (tbl_rows conn2) = 2 \<and> length (utenti db2) = 2"
    by simp
  with c d show ?thesis by simp
qed

section \<open>Properties of the aggregators\<close>

lemma scan_fields_mem: "scan_fields crit cols = Some f \<Longrightarrow> f \<in> set cols"
  by (induction cols) (auto split: if_splits)

lemma select_count_https_no_rows:
  assumes "tbl_rows conn = []" and "tbl_columns conn = Some cols"
    and "CHR 0x22 \<notin> set col" and "CHR 0x00 \<notin> set col"
  shows "select_count_https conn col = Inr 0"
  using assms by (simp add: select_count_https_def unquote_plain)

lemma count_https_websites_no_rows:
  assumes "tbl_rows conn = []" and "tbl_columns conn = Some cols"
    and "\<forall>n \<in> set cols. CHR 0x22 \<notin> set n \<and> CHR 0x00 \<notin> set n"
  shows "\<exists>conn1. count_https_websites conn = Inr (0, conn1)"
proof (cases "scan_fields sqlite_website_test (pragma_table_info conn)")
  case None
  then show ?thesis by (simp add: count_https_websites_def Let_def)
next
  case (Some col)
  from scan_fields_mem [OF Some] assms(2) have "col = ''id'' \<or> col \<in> set cols"
    by (simp add: pragma_table_info_def)
  with assms(3) have "CHR 0x22 \<notin> set col \<and> CHR 0x00 \<notin> set col"
    by auto
  with select_count_https_no_rows [OF assms(1,2), of col]
  have "select_count_https conn col = Inr 0" by simp
  with Some show ?thesis by (simp add: count_https_websites_def Let_def)
qed

lemma load_header_only_sqlite:
  "\<not> in_transaction conn \<Longrightarrow>
     load_csv_to_database conn [header]
     = Inr (0, conn_commit (conn\<lparr>in_transaction := True,
                                 executed := executed conn @ [BeginTransaction]\<rparr>))"
  by (simp add: load_csv_to_database_def next_record_def execute_begin_def)

lemma load_header_only_mongo: "load_csv_to_mongodb strptime db [header] = Inr (0, db)"
  by (simp add: load_csv_to_mongodb_def next_record_def)

lemma sqlite_main_header_only:
  assumes "\<forall>n \<in> set header. CHR 0x22 \<notin> set n \<and> CHR 0x00 \<notin> set n"
    and "distinct (''id'' # map sqlite_safe_col_name header)" and "length header < 2000"
  shows "sqlite_main conn [header] = Inr (0, 0)"
proof -
  let ?c1 = "conn_commit ((execute_drop conn)\<lparr>tbl_columns := Some (map sqlite_safe_col_name header),
               tbl_rows := [],
               executed := executed (execute_drop conn) @ [CreateTable (sqlite_create_sql header)]\<rparr>)"
  let ?c2 = "conn_commit (?c1\<lparr>in_transaction := True,
               executed := executed ?c1 @ [BeginTransaction]\<rparr>)"
  have a: "create_table conn [header] = Inr ((), ?c1)"
    using create_table_plain [OF assms, of conn "[]"] .
  have "\<not> in_transaction ?c1" by (simp add: conn_commit_def)
  then have b: "load_csv_to_database ?c1 [header] = Inr (0, ?c2)"
    by (rule load_header_only_sqlite)
  have r: "tbl_rows ?c2 = []" by (simp add: conn_commit_def execute_drop_def)
  have t: "tbl_columns ?c2 = Some (map sqlite_safe_col_name header)"
    by (simp add: conn_commit_def)
  from assms(1)
  have q: "\<forall>n \<in> set (map sqlite_safe_col_name header). CHR 0x22 \<notin> set n \<and> CHR 0x00 \<notin> set n"
    by (simp add: safe_name_dquote safe_name_nul)
  from count_https_websites_no_rows [OF r t q]
  obtain c3 where c: "count_https_websites ?c2 = Inr (0, c3)"
    by blast
  have d: "get_csv_column_count [header] = Inr (length header)"
    by (simp add: get_csv_column_count_def next_record_def)
  show ?thesis
    unfolding sqlite_main_def by (simp only: a b c d sum.case prod.case)
qed

lemma mongo_main_header_only: "mongo_main strptime db [header] = Inr (0, 0)"
  by (simp add: mongo_main_def load_header_only_mongo count_2020_subscriptions_def
        mongo_date_field_def find_one_def drop_collection_def Let_def)

lemma count_https_websites_no_match:
  "scan_fields sqlite_website_test (pragma_table_info conn) = None \<Longrightarrow>
     count_https_websites conn = Inr (0, conn\<lparr>executed := executed conn @ [PragmaTableInfo]\<rparr>)"
  by (simp add: count_https_websites_def Let_def)

lemma count_2020_subscriptions_no_match:
  "mongo_date_field (find_one db) = None \<Longrightarrow>
     count_2020_subscriptions db = Inr (0, db\<lparr>issued := issued db @ [FindOne]\<rparr>)"
  by (simp add: count_2020_subscriptions_def Let_def)

lemma sqlite_main_no_match:
  assumes "create_table conn csv_file = Inr ((), connA)"
    and "load_csv_to_database connA csv_file = Inr (n, connB)"
    and "scan_fields sqlite_website_test (pragma_table_info connB) = None"
  shows "sqlite_main conn csv_file = Inr (n, 0)"
proof -
  from assms(2) obtain header data where "csv_file = header # data"
    using load_csv_to_database_Inr by blast
  then have d: "get_csv_column_count csv_file = Inr (length header)"
    by (simp add: get_csv_column_count_def next_record_def)
  note c = count_https_websites_no_match [OF assms(3)]
  show ?thesis
    unfolding sqlite_main_def by (simp only: assms(1,2) c d sum.case prod.case)
qed

lemma mongo_main_no_match:
  assumes "load_csv_to_mongodb strptime (drop_collection db) csv_file = Inr (m, dbA)"
    and "mongo_date_field (find_one dbA) = None"
  shows "mongo_main strptime db csv_file = Inr (m, 0)"
  unfolding mongo_main_def
  by (simp only: assms(1) count_2020_subscriptions_no_match [OF assms(2)] sum.case prod.case)

text \<open>
  C6. When the scan over the fields the destination lists finds none, the count
  function returns zero normally: the connection has then executed the field listing
  (\<open>PRAGMA table_info\<close>, or \<open>find_one\<close>) and nothing after it, so no count query is
  issued; and \<open>main\<close> goes on to its result block with the rows loaded and the count
  zero.
\<close>

theorem no_match_returns_zero_without_count_query:
  "(scan_fields sqlite_website_test (pragma_table_info conn) = None \<longrightarrow>
      count_https_websites conn
        = Inr (0, conn\<lparr>executed := executed conn @ [PragmaTableInfo]\<rparr>))
   \<and> (mongo_date_field (find_one db) = None \<longrightarrow>
      count_2020_subscriptions db = Inr (0, db\<lparr>issued := issued db @ [FindOne]\<rparr>))
   \<and> (create_table conn csv_file = Inr ((), connA)
        \<and> load_csv_to_database connA csv_file = Inr (n, connB)
        \<and> scan_fields sqlite_website_test (pragma_table_info connB) = None \<longrightarrow>
      sqlite_main conn csv_file = Inr (n, 0))
   \<and> (load_csv_to_mongodb strptime (drop_collection db) csv_file = Inr (m, dbA)
        \<and> mongo_date_field (find_one dbA) = None \<longrightarrow>
      mongo_main strptime db csv_file = Inr (m, 0))"
  using count_https_websites_no_match [of conn] count_2020_subscriptions_no_match [of db]
    sqlite_main_no_match [of conn csv_file connA n connB]
    mongo_main_no_match [of strptime db csv_file m dbA]
  by blast

lemma lower_example_fields:
  "py_lower ''id'' = ''id'' \<and> py_lower ''name'' = ''name'' \<and> py_lower ''_id'' = ''_id''
   \<and> py_lower ''Name'' = ''name''"
  by code_simp

theorem no_match_returns_zero_without_count_query_witness:
  "count_https_websites
      \<lparr>tbl_columns = Some [''name''], tbl_rows = [[Some ''a'']], committed_rows = [[Some ''a'']],
       in_transaction = False, executed = []\<rparr>
     = Inr (0, \<lparr>tbl_columns = Some [''name''], tbl_rows = [[Some ''a'']],
                committed_rows = [[Some ''a'']], in_transaction = False,
                executed = [PragmaTableInfo]\<rparr>)
   \<and> count_2020_subscriptions
      \<lparr>utenti = [[(''_id'', ObjectId 0), (''Name'', Text ''a'')]], next_oid = 1, issued = []\<rparr>
     = Inr (0, \<lparr>utenti = [[(''_id'', ObjectId 0), (''Name'', Text ''a'')]], next_oid = 1,
                issued = [FindOne]\<rparr>)"
proof -
  let ?conn = "\<lparr>tbl_columns = Some [''name''], tbl_rows = [[Some ''a'']],
                committed_rows = [[Some ''a'']], in_transaction = False, executed = []\<rparr>"
  let ?db = "\<lparr>utenti = [[(''_id'', ObjectId 0), (''Name'', Text ''a'')]], next_oid = 1,
              issued = []\<rparr>"
  have a: "scan_fields sqlite_website_test (pragma_table_info ?conn) = None"
    by (simp add: pragma_table_info_def lower_example_fields sqlite_website_test_def)
  have b: "mongo_date_field (find_one ?db) = None"
    by (simp add: mongo_date_field_def find_one_def lower_example_fields
          mongo_subscription_test_def)
  from no_match_returns_zero_without_count_query [where conn = ?conn and db = ?db] a b
  show ?thesis by simp
qed

text \<open>
  C8, as the code has it. A file that holds only a header loads zero rows in both
  scripts. The MongoDB run then ends with the results zero and zero, nothing being
  inserted or counted. The SQLite run ends with zero and zero when its table can be
  made and counted on: when no header name holds a double quote or a NUL character,
  the stored names differ from each other and from \<open>id\<close>, and there are fewer than
  2000 of them.
\<close>

theorem header_only_source_loads_zero_and_counts_zero:
  "mongo_main strptime db [header] = Inr (0, 0)
   \<and> load_csv_to_mongodb strptime db [header] = Inr (0, db)
   \<and> (\<not> in_transaction conn \<longrightarrow> (\<exists>conn1. load_csv_to_database conn [header] = Inr (0, conn1)
          \<and> tbl_rows conn1 = tbl_rows conn))
   \<and> ((\<forall>n \<in> set header. CHR 0x22 \<notin> set n \<and> CHR 0x00 \<notin> set n)
        \<and> distinct (''id'' # map sqlite_safe_col_name header) \<and> length header < 2000 \<longrightarrow>
      sqlite_main conn [header] = Inr (0, 0))"
  using sqlite_main_header_only [of header conn] mongo_main_header_only [of strptime db header]
    load_header_only_mongo [of strptime db header] load_header_only_sqlite [of conn header]
  by (simp add: conn_commit_def)

theorem header_only_source_loads_zero_and_counts_zero_witness:
  "sqlite_main
      \<lparr>tbl_columns = None, tbl_rows = [], committed_rows = [], in_transaction = False,
       executed = []\<rparr> [[''Name'', ''Web Site'']] = Inr (0, 0)
   \<and> mongo_main strptime_ymd \<lparr>utenti = [], next_oid = 0, issued = []\<rparr>
        [[''Name'', ''Subscription Date'']] = Inr (0, 0)"
proof -
  have "(\<forall>n \<in> set [''Name'', ''Web Site'']. CHR 0x22 \<notin> set n \<and> CHR 0x00 \<notin> set n)
        \<and> distinct (''id'' # map sqlite_safe_col_name [''Name'', ''Web Site''])
        \<and> length [''Name'', ''Web Site''] < 2000"
    by (simp add: example_header_names)
  with header_only_source_loads_zero_and_counts_zero
          [where header = "[''Name'', ''Web Site'']"
             and conn = "\<lparr>tbl_columns = None, tbl_rows = [], committed_rows = [],
                           in_transaction = False, executed = []\<rparr>"]
        header_only_source_loads_zero_and_counts_zero
          [where strptime = strptime_ymd and header = "[''Name'', ''Subscription Date'']"
             and db = "\<lparr>utenti = [], next_oid = 0, issued = []\<rparr>"]
  show ?thesis by blast
qed

text \<open>
  C8 as the specification states it fails for the SQLite script. A file that holds
  only the header \<open>Id, Website\<close> ends in an error and without results, because the
  script's own key column is named \<open>id\<close> too and the table cannot be made. A file
  that holds only a header with the name \<open>site""x\<close> ends in an error as well: the
  table is made, with the column \<open>site"x\<close>, and the count query that puts this name
  between double quotes is refused.
\<close>

theorem header_only_source_counterexample:
  "map sqlite_safe_col_name [''Id'', ''Website''] = [''id'', ''website'']
   \<and> sqlite_main
        \<lparr>tbl_columns = None, tbl_rows = [], committed_rows = [], in_transaction = False,
         executed = []\<rparr> [[''Id'', ''Website'']]
      = Inl OperationalError
   \<and> (\<exists>conn1. create_table
          \<lparr>tbl_columns = None, tbl_rows = [], committed_rows = [], in_transaction = False,
           executed = []\<rparr>
          [[[CHR ''s'', CHR ''i'', CHR ''t'', CHR ''e'', CHR 0x22, CHR 0x22, CHR ''x'']]]
        = Inr ((), conn1)
        \<and> tbl_columns conn1 = Some [[CHR ''s'', CHR ''i'', CHR ''t'', CHR ''e'', CHR 0x22, CHR ''x'']])
   \<and> sqlite_main
        \<lparr>tbl_columns = None, tbl_rows = [], committed_rows = [], in_transaction = False,
         executed = []\<rparr>
        [[[CHR ''s'', CHR ''i'', CHR ''t'', CHR ''e'', CHR 0x22, CHR 0x22, CHR ''x'']]]
      = Inl OperationalError"
proof -
  have "replace_space (py_lower ''Id'') = ''id''"
    and "replace_space (py_lower ''Website'') = ''website''"
    by code_simp+
  then have n: "sqlite_safe_col_name ''Id'' = ''id''"
    "sqlite_safe_col_name ''Website'' = ''website''"
    by (simp_all add: sqlite_via_lower_replace RESERVED_WORDS_def)
  then have a: "map sqlite_safe_col_name [''Id'', ''Website''] = [''id'', ''website'']
   \<and> sqlite_main
        \<lparr>tbl_columns = None, tbl_rows = [], committed_rows = [], in_transaction = False,
         executed = []\<rparr> [[''Id'', ''Website'']]
      = Inl OperationalError"
    by (simp add: sqlite_main_def get_csv_column_count_def create_table_def next_record_def
          execute_drop_def execute_create_def engine_create_columns_def Let_def
          lower_example_names)
  let ?raw = "[CHR ''s'', CHR ''i'', CHR ''t'', CHR ''e'', CHR 0x22, CHR 0x22, CHR ''x'']"
  let ?col = "[CHR ''s'', CHR ''i'', CHR ''t'', CHR ''e'', CHR 0x22, CHR ''x'']"
  have "replace_space (py_lower ?raw) = ?raw"
    by code_simp
  then have q: "sqlite_safe_col_name ?raw = ?raw"
    by (simp add: sqlite_via_lower_replace RESERVED_WORDS_def)
  have l: "py_lower ?col = ?col" "py_lower ''id'' = ''id''"
    by code_simp+
  have b: "create_table
          \<lparr>tbl_columns = None, tbl_rows = [], committed_rows = [], in_transaction = False,
           executed = []\<rparr> [[?raw]]
        = Inr ((), \<lparr>tbl_columns = Some [?col], tbl_rows = [], committed_rows = [],
                   in_transaction = False,
                   executed = [DropTableIfExists, CreateTable (sqlite_create_sql [?raw])]\<rparr>)"
    by (simp add: create_table_def next_record_def execute_drop_def execute_create_def
          engine_create_columns_def Let_def conn_commit_def q l)
  have c: "sqlite_main
        \<lparr>tbl_columns = None, tbl_rows = [], committed_rows = [], in_transaction = False,
         executed = []\<rparr> [[?raw]]
      = Inl OperationalError"
    unfolding sqlite_main_def
    by (simp add: b get_csv_column_count_def next_record_def load_csv_to_database_def
          execute_begin_def conn_commit_def count_https_websites_def pragma_table_info_def
          sqlite_website_test_def select_count_https_def Let_def l)
  from a b c show ?thesis by simp
qed

section \<open>Properties of the stored documents\<close>

lemma load_single_record_mongo:
  "load_csv_to_mongodb strptime db [header, row]
   = (case insert_many db [build_doc strptime header row] of
        Inl e \<Rightarrow> Inl e
      | Inr db1 \<Rightarrow> Inr (1, db1))"
  by (cases "insert_many db [build_doc strptime header row]")
     (simp_all add: load_csv_to_mongodb_def next_record_def Let_def)

lemma load_stores_documents_of_rows:
  assumes "load_csv_to_mongodb strptime db (header # data) = Inr (n, db1)"
  shows "utenti db1 = utenti db
           @ map (\<lambda>(oid, row). store_document oid (build_doc strptime header row))
               (enumerate (next_oid db) data)"
  using load_csv_to_mongodb_Inr [OF assms] by (simp add: stored_documents_of_rows)

lemma store_document_other:
  "k \<noteq> ''_id'' \<Longrightarrow> map_of (store_document oid doc) k = map_of doc k"
  by (simp add: store_document_def AList.delete_conv' split: option.splits)

lemma fold_update_last:
  "i < length ps \<Longrightarrow> \<forall>j. i < j \<and> j < length ps \<longrightarrow> fst (ps ! j) \<noteq> fst (ps ! i) \<Longrightarrow>
   map_of (foldl (\<lambda>doc (col_name, v). AList.update col_name (g col_name v) doc) doc ps)
     (fst (ps ! i))
   = Some (g (fst (ps ! i)) (snd (ps ! i)))"
proof (induction ps arbitrary: doc i)
  case Nil
  then show ?case by simp
next
  case (Cons p ps)
  obtain c w where p: "p = (c, w)" by (cases p)
  show ?case
  proof (cases i)
    case 0
    have "c \<notin> fst ` set ps"
    proof
      assume "c \<in> fst ` set ps"
      then obtain j where j: "j < length ps" "fst (ps ! j) = c"
        by (auto simp: in_set_conv_nth)
      with Cons.prems(2) 0 p have "fst ((p # ps) ! Suc j) \<noteq> fst ((p # ps) ! 0)"
        by (intro Cons.prems(2) [rule_format, unfolded 0]) simp
      with j p show False by simp
    qed
    from fold_update_other [OF this, of g "AList.update c (g c w) doc"] p 0
    show ?thesis by (simp add: AList.update_conv')
  next
    case (Suc k)
    with Cons.prems(1) have k: "k < length ps" by simp
    have "\<forall>j. k < j \<and> j < length ps \<longrightarrow> fst (ps ! j) \<noteq> fst (ps ! k)"
    proof (intro allI impI)
      fix j assume "k < j \<and> j < length ps"
      then have "i < Suc j \<and> Suc j < length (p # ps)" using Suc by simp
      with Cons.prems(2) have "fst ((p # ps) ! Suc j) \<noteq> fst ((p # ps) ! i)" by blast
      with Suc show "fst (ps ! j) \<noteq> fst (ps ! k)" by simp
    qed
    from Cons.IH [OF k this, of "AList.update c (g c w) doc"] p Suc show ?thesis by simp
  qed
qed

lemma build_doc_last_value:
  assumes "i < length header" and "i < length row"
    and "\<forall>j. i < j \<and> j < length header \<and> j < length row \<longrightarrow> header ! j \<noteq> header ! i"
  shows "map_of (build_doc strptime header row) (header ! i)
         = Some (field_value strptime (header ! i) (row ! i))"
proof -
  let ?ps = "zip header row"
  from assms(1,2) have i: "i < length ?ps" by simp
  from assms(3) have "\<forall>j. i < j \<and> j < length ?ps \<longrightarrow> fst (?ps ! j) \<noteq> fst (?ps ! i)"
    using assms(1,2) by simp
  from fold_update_last [OF i this, of "field_value strptime" "[]"] assms(1,2)
  show ?thesis by (simp add: build_doc_zip)
qed

text \<open>
  C9, as the code has it. In the MongoDB load the document of a record holds exactly
  the header fields for which the record has a value, each once and with the value of
  its position; a field the record is too short for is not in the document at all
  (neither empty nor \<open>None\<close>). The length of a record never makes the load fail: the
  load of one record fails only if \<open>insert_many\<close> refuses its document; a load that
  returns has stored the documents of all records in their order; and the load
  returns, with the number of records, for every file whose header has no \<open>_id\<close>
  column and no name with a NUL character.
\<close>

theorem short_record_document_has_leading_fields_only:
  "fst ` set (build_doc strptime header row) = set (take (length row) header)
   \<and> distinct (map fst (build_doc strptime header row))
   \<and> (map_of (build_doc strptime header row) k = None
        \<longleftrightarrow> k \<notin> set (take (length row) header))
   \<and> (distinct header \<and> i < length header \<and> i < length row \<longrightarrow>
        map_of (build_doc strptime header row) (header ! i)
          = Some (field_value strptime (header ! i) (row ! i)))
   \<and> (''_id'' \<notin> set header \<and> (\<forall>h \<in> set header. CHR 0x00 \<notin> set h) \<longrightarrow>
        (\<exists>db'. load_csv_to_mongodb strptime db (header # data) = Inr (length data, db')))
   \<and> load_csv_to_mongodb strptime db [header, row]
        = (case insert_many db [build_doc strptime header row] of
             Inl e \<Rightarrow> Inl e
           | Inr db' \<Rightarrow> Inr (1, db'))
   \<and> (load_csv_to_mongodb strptime db (header # data) = Inr (n, db'') \<longrightarrow>
        utenti db'' = utenti db
           @ map (\<lambda>(oid, row). store_document oid (build_doc strptime header row))
               (enumerate (next_oid db) data))"
  using build_doc_keys [of strptime header row] build_doc_distinct [of strptime header row]
    build_doc_absent [of strptime header row k] build_doc_value [of header i row strptime]
    load_csv_to_mongodb_succeeds [of header strptime db data]
    load_single_record_mongo [of strptime db header row]
    load_stores_documents_of_rows [of strptime db header data n db'']
  by blast

lemma example_date_columns:
  "\<not> is_date_column ''Name'' \<and> is_date_column ''Subscription Date''
   \<and> is_date_column ''Date'' \<and> \<not> is_date_column ''_id''"
proof -
  have "py_lower ''Name'' = ''name''" and "py_lower ''Subscription Date'' = ''subscription date''"
    and "py_lower ''Date'' = ''date''" and "py_lower ''_id'' = ''_id''"
    by code_simp+
  then show ?thesis by (simp add: is_date_column_def)
qed

theorem short_record_document_has_leading_fields_only_witness:
  "map_of (build_doc strptime_ymd [''Name'', ''Subscription Date''] [''e'']) ''Name''
     = Some (Text ''e'')
   \<and> map_of (build_doc strptime_ymd [''Name'', ''Subscription Date''] [''e''])
       ''Subscription Date'' = None
   \<and> fst ` set (build_doc strptime_ymd [''Name'', ''Subscription Date''] [''e'']) = {''Name''}
   \<and> (\<exists>db1. load_csv_to_mongodb strptime_ymd \<lparr>utenti = [], next_oid = 0, issued = []\<rparr>
          [[''Name'', ''Subscription Date''], [''e'']] = Inr (1, db1))"
proof -
  let ?header = "[''Name'', ''Subscription Date'']"
  let ?db = "\<lparr>utenti = [], next_oid = 0, issued = []\<rparr>"
  note t = short_record_document_has_leading_fields_only
          [where strptime = strptime_ymd and header = ?header
             and row = "[''e'']" and i = 0 and k = "''Subscription Date''"
             and data = "[[''e'']]" and db = ?db]
  have h1: "distinct ?header \<and> 0 < length ?header \<and> 0 < length [''e'']" by simp
  have h2: "''_id'' \<notin> set ?header \<and> (\<forall>h \<in> set ?header. CHR 0x00 \<notin> set h)" by simp
  from t have "fst ` set (build_doc strptime_ymd ?header [''e'']) = set (take (length [''e'']) ?header)"
    by blast
  then have a: "fst ` set (build_doc strptime_ymd ?header [''e'']) = {''Name''}" by simp
  from t have "map_of (build_doc strptime_ymd ?header [''e'']) ''Subscription Date'' = None
        \<longleftrightarrow> ''Subscription Date'' \<notin> set (take (length [''e'']) ?header)"
    by blast
  then have b: "map_of (build_doc strptime_ymd ?header [''e'']) ''Subscription Date'' = None"
    by simp
  from t h1 have "map_of (build_doc strptime_ymd ?header [''e'']) (?header ! 0)
          = Some (field_value strptime_ymd (?header ! 0) ([''e''] ! 0))"
    by blast
  then have c: "map_of (build_doc strptime_ymd ?header [''e'']) ''Name'' = Some (Text ''e'')"
    by (simp add: field_value_def example_date_columns)
  from t h2 have "\<exists>db'. load_csv_to_mongodb strptime_ymd ?db (?header # [[''e'']])
          = Inr (length [[''e'']], db')"
    by blast
  then have d: "\<exists>db1. load_csv_to_mongodb strptime_ymd ?db [?header, [''e'']] = Inr (1, db1)"
    by simp
  from a b c d show ?thesis by blast
qed

text \<open>
  C9 as the specification states it fails for the SQLite script: a record with one
  field under a header of two is rejected by the insert with \<open>ProgrammingError\<close>, and
  the run ends without a result. In the MongoDB script a short record is rejected too
  when its \<open>_id\<close> is that of an earlier record, or when a name of the header holds a
  NUL character.
\<close>

theorem short_record_rejected_counterexample:
  "sqlite_main
      \<lparr>tbl_columns = None, tbl_rows = [], committed_rows = [], in_transaction = False,
       executed = []\<rparr> [[''Name'', ''Web Site''], [''a'']] = Inl ProgrammingError
   \<and> load_csv_to_mongodb strptime_ymd \<lparr>utenti = [], next_oid = 0, issued = []\<rparr>
        [[''_id'', ''x''], [''1''], [''1'']]
      = Inl (BulkWriteError,
             \<lparr>utenti = [[(''_id'', Text ''1'')]], next_oid = 2, issued = [InsertMany 2]\<rparr>)
   \<and> load_csv_to_mongodb strptime_ymd \<lparr>utenti = [], next_oid = 0, issued = []\<rparr>
        [[[CHR 0x00], ''x''], [''1'']]
      = Inl (InvalidDocument, \<lparr>utenti = [], next_oid = 0, issued = []\<rparr>)"
proof -
  have a: "sqlite_main
      \<lparr>tbl_columns = None, tbl_rows = [], committed_rows = [], in_transaction = False,
       executed = []\<rparr> [[''Name'', ''Web Site''], [''a'']] = Inl ProgrammingError"
    by (simp add: sqlite_main_def get_csv_column_count_def next_record_def example_create_table
          conn_rollback_def load_csv_to_database_def execute_begin_def execute_insert_def
          example_header_names lower_example_names)
  have d1: "build_doc strptime_ymd [''_id'', ''x''] [''1''] = [(''_id'', Text ''1'')]"
    by (simp add: build_doc_def field_value_def example_date_columns)
  have b: "load_csv_to_mongodb strptime_ymd \<lparr>utenti = [], next_oid = 0, issued = []\<rparr>
        [[''_id'', ''x''], [''1''], [''1'']]
      = Inl (BulkWriteError,
             \<lparr>utenti = [[(''_id'', Text ''1'')]], next_oid = 2, issued = [InsertMany 2]\<rparr>)"
    by (simp add: load_csv_to_mongodb_def next_record_def Let_def d1 insert_many_def
          store_document_def)
  have "py_lower [CHR 0x00] = [CHR 0x00]"
    by code_simp
  then have "\<not> is_date_column [CHR 0x00]"
    by (simp add: is_date_column_def)
  then have d2: "build_doc strptime_ymd [[CHR 0x00], ''x''] [''1''] = [([CHR 0x00], Text ''1'')]"
    by (simp add: build_doc_def field_value_def)
  have c: "load_csv_to_mongodb strptime_ymd \<lparr>utenti = [], next_oid = 0, issued = []\<rparr>
        [[[CHR 0x00], ''x''], [''1'']]
      = Inl (InvalidDocument, \<lparr>utenti = [], next_oid = 0, issued = []\<rparr>)"
    by (simp add: load_csv_to_mongodb_def next_record_def Let_def d2 insert_many_def)
  from a b c show ?thesis by simp
qed

text \<open>
  C10, as the code has it. In a column whose name contains \<open>date\<close> or \<open>data\<close>, the
  empty string becomes \<open>None\<close>, a non-empty value that parses becomes the date, a
  non-empty value that does not parse stays its text, and text stays for nothing
  else. The document of a record holds, under the name of a column the record
  reaches, the value so made of the last column of that name; a load that returns has
  stored these documents, one per record and in their order, each under its \<open>_id\<close>
  and otherwise unchanged; and no date column is named \<open>_id\<close>.
\<close>

theorem date_column_values_as_stored:
  "(is_date_column col_name \<longrightarrow>
      field_value strptime col_name [] = Null
      \<and> (v \<noteq> [] \<and> strptime v = None \<longrightarrow> field_value strptime col_name v = Text v)
      \<and> (v \<noteq> [] \<and> strptime v = Some (y, m, d) \<longrightarrow>
            field_value strptime col_name v = Datetime y m d)
      \<and> (field_value strptime col_name v = Text w \<longrightarrow>
            w = v \<and> v \<noteq> [] \<and> strptime v = None))
   \<and> (i < length header \<and> i < length row
        \<and> (\<forall>j. i < j \<and> j < length header \<and> j < length row \<longrightarrow> header ! j \<noteq> header ! i) \<longrightarrow>
      map_of (build_doc strptime header row) (header ! i)
        = Some (field_value strptime (header ! i) (row ! i)))
   \<and> (load_csv_to_mongodb strptime db (header # data) = Inr (n, db') \<longrightarrow>
        utenti db' = utenti db
           @ map (\<lambda>(oid, row). store_document oid (build_doc strptime header row))
               (enumerate (next_oid db) data))
   \<and> (k \<noteq> ''_id'' \<longrightarrow> map_of (store_document oid doc) k = map_of doc k)
   \<and> \<not> is_date_column ''_id''"
proof -
  have a: "is_date_column col_name \<longrightarrow>
      field_value strptime col_name [] = Null
      \<and> (v \<noteq> [] \<and> strptime v = None \<longrightarrow> field_value strptime col_name v = Text v)
      \<and> (v \<noteq> [] \<and> strptime v = Some (y, m, d) \<longrightarrow>
            field_value strptime col_name v = Datetime y m d)
      \<and> (field_value strptime col_name v = Text w \<longrightarrow>
            w = v \<and> v \<noteq> [] \<and> strptime v = None)"
    by (auto simp: field_value_def split: option.splits if_splits)
  have b: "i < length header \<and> i < length row
        \<and> (\<forall>j. i < j \<and> j < length header \<and> j < length row \<longrightarrow> header ! j \<noteq> header ! i) \<longrightarrow>
      map_of (build_doc strptime header row) (header ! i)
        = Some (field_value strptime (header ! i) (row ! i))"
    using build_doc_last_value [of i header row strptime] by blast
  have c: "load_csv_to_mongodb strptime db (header # data) = Inr (n, db') \<longrightarrow>
        utenti db' = utenti db
           @ map (\<lambda>(oid, row). store_document oid (build_doc strptime header row))
               (enumerate (next_oid db) data)"
    using load_stores_documents_of_rows [of strptime db header data n db'] by blast
  have d: "k \<noteq> ''_id'' \<longrightarrow> map_of (store_document oid doc) k = map_of doc k"
    using store_document_other [of k oid doc] by blast
  have e: "\<not> is_date_column ''_id''"
    by (simp add: example_date_columns)
  from a b c d e show ?thesis by blast
qed

lemma example_dates:
  "strptime_ymd ''2020-06-15'' = Some (2020, 6, 15) \<and> strptime_ymd ''15/06/2020'' = None
   \<and> strptime_ymd ''2020-01-01'' = Some (2020, 1, 1)"
  by code_simp

theorem date_column_values_as_stored_witness:
  "field_value strptime_ymd ''Subscription Date'' '''' = Null
   \<and> field_value strptime_ymd ''Subscription Date'' ''15/06/2020'' = Text ''15/06/2020''
   \<and> field_value strptime_ymd ''Subscription Date'' ''2020-06-15'' = Datetime 2020 6 15
   \<and> map_of (build_doc strptime_ymd [''Name'', ''Subscription Date''] [''d'', ''''])
        ''Subscription Date'' = Some Null
   \<and> map_of (build_doc strptime_ymd [''Date'', ''Date''] ['''', ''2020-01-01'']) ''Date''
        = Some (Datetime 2020 1 1)"
proof -
  have c: "is_date_column ''Subscription Date''" and c2: "is_date_column ''Date''"
    by (simp_all add: example_date_columns)
  from date_column_values_as_stored
         [where strptime = strptime_ymd and col_name = "''Subscription Date''"
            and v = "''15/06/2020''"] c
  have t1: "field_value strptime_ymd ''Subscription Date'' '''' = Null"
    and t2: "field_value strptime_ymd ''Subscription Date'' ''15/06/2020'' = Text ''15/06/2020''"
    by (simp_all add: example_dates)
  from date_column_values_as_stored
         [where strptime = strptime_ymd and col_name = "''Subscription Date''"
            and v = "''2020-06-15''" and y = 2020 and m = 6 and d = 15] c
  have t3: "field_value strptime_ymd ''Subscription Date'' ''2020-06-15'' = Datetime 2020 6 15"
    by (simp add: example_dates)
  have "\<forall>j. 1 < j \<and> j < length [''Name'', ''Subscription Date''] \<and> j < length [''d'', '''']
          \<longrightarrow> [''Name'', ''Subscription Date''] ! j \<noteq> [''Name'', ''Subscription Date''] ! 1"
    by simp
  with date_column_values_as_stored
         [where strptime = strptime_ymd and header = "[''Name'', ''Subscription Date'']"
            and row = "[''d'', '''']" and i = 1]
  have "map_of (build_doc strptime_ymd [''Name'', ''Subscription Date''] [''d'', ''''])
        ([''Name'', ''Subscription Date''] ! 1)
        = Some (field_value strptime_ymd ([''Name'', ''Subscription Date''] ! 1) ([''d'', ''''] ! 1))"
    by simp
  with t1 have t4: "map_of (build_doc strptime_ymd [''Name'', ''Subscription Date''] [''d'', ''''])
        ''Subscription Date'' = Some Null"
    by simp
  have "\<forall>j. 1 < j \<and> j < length [''Date'', ''Date''] \<and> j < length ['''', ''2020-01-01'']
          \<longrightarrow> [''Date'', ''Date''] ! j \<noteq> [''Date'', ''Date''] ! 1"
    by simp
  with date_column_values_as_stored
         [where strptime = strptime_ymd and header = "[''Date'', ''Date'']"
            and row = "['''', ''2020-01-01'']" and i = 1]
  have "map_of (build_doc strptime_ymd [''Date'', ''Date''] ['''', ''2020-01-01''])
        ([''Date'', ''Date''] ! 1)
        = Some (field_value strptime_ymd ([''Date'', ''Date''] ! 1) (['''', ''2020-01-01''] ! 1))"
    by simp
  then have t5: "map_of (build_doc strptime_ymd [''Date'', ''Date''] ['''', ''2020-01-01''])
        ''Date'' = Some (Datetime 2020 1 1)"
    by (simp add: field_value_def c2 example_dates)
  from t1 t2 t3 t4 t5 show ?thesis by simp
qed

text \<open>
  C10 as stated fails where two columns share a date name: under the header
  \<open>Date, Date\<close> the record with an empty first value and \<open>2020-01-01\<close> as its second
  is stored as one field holding the date, so the empty value is not stored as
  \<open>None\<close>; it is not stored at all.
\<close>

theorem repeated_date_column_counterexample:
  "is_date_column ''Date''
   \<and> build_doc strptime_ymd [''Date'', ''Date''] ['''', ''2020-01-01'']
       = [(''Date'', Datetime 2020 1 1)]
   \<and> load_csv_to_mongodb strptime_ymd \<lparr>utenti = [], next_oid = 0, issued = []\<rparr>
        [[''Date'', ''Date''], ['''', ''2020-01-01'']]
      = Inr (1, \<lparr>utenti = [[(''_id'', ObjectId 0), (''Date'', Datetime 2020 1 1)]],
                 next_oid = 1, issued = [InsertMany 1]\<rparr>)"
proof -
  have b: "build_doc strptime_ymd [''Date'', ''Date''] ['''', ''2020-01-01'']
       = [(''Date'', Datetime 2020 1 1)]"
    by (simp add: build_doc_def field_value_def example_date_columns example_dates)
  have "insert_many \<lparr>utenti = [], next_oid = 0, issued = []\<rparr> [[(''Date'', Datetime 2020 1 1)]]
      = Inr \<lparr>utenti = [[(''_id'', ObjectId 0), (''Date'', Datetime 2020 1 1)]],
                 next_oid = 1, issued = [InsertMany 1]\<rparr>"
    by (simp add: insert_many_def store_document_def Let_def)
  with b show ?thesis
    by (simp add: load_single_record_mongo example_date_columns)
qed

end
